theory Spec2Isabelle
  imports Main "HOL-Library.Word"
begin

section \<open>JavaScript values used by the plugin\<close>

text \<open>
  Strings are lists of 8-bit characters, read as code units 0..255. The built-in
  \<^verbatim>\<open>Map\<close> is an association list in insertion order: setting a key that is present
  replaces the value where it stands, a new key goes to the end.
  A field or function whose name is taken, by the logic or by another record, carries a
  suffix: \<open>method_p\<close>, \<open>text_r\<close>, \<open>source_e\<close>, \<open>get_cache\<close>.
\<close>

fun assign :: "'k \<Rightarrow> 'v \<Rightarrow> ('k \<times> 'v) list \<Rightarrow> ('k \<times> 'v) list" where
  "assign k v [] = [(k, v)]"
| "assign k v ((k', v') # m) = (if k' = k then (k, v) # m else (k', v') # assign k v m)"

definition delete_key :: "'k \<Rightarrow> ('k \<times> 'v) list \<Rightarrow> ('k \<times> 'v) list" where
  "delete_key k m = filter (\<lambda>p. fst p \<noteq> k) m"

text \<open>
  An object with string keys is the list of its own properties in the order the language
  enumerates them: the keys that are array indices (canonical decimal numbers up to
  \<open>2^32 - 2\<close>) first, in ascending order, then the other keys in the order of their
  creation. Assigning to a key that is present replaces the value where it stands.
\<close>

definition isDigit :: "char \<Rightarrow> bool" where
  "isDigit c = (let n = of_char c :: nat in 48 \<le> n \<and> n \<le> 57)"

definition parseNat :: "string \<Rightarrow> int" where
  "parseNat s = foldl (\<lambda>n c. 10 * n + (of_char c - 48)) 0 s"

definition isArrayIndex :: "string \<Rightarrow> bool" where
  "isArrayIndex s =
     (s \<noteq> [] \<and> list_all isDigit s \<and> (length s = 1 \<or> hd s \<noteq> CHR ''0'')
      \<and> parseNat s < 4294967295)"

fun insert_index :: "string \<Rightarrow> 'v \<Rightarrow> (string \<times> 'v) list \<Rightarrow> (string \<times> 'v) list" where
  "insert_index k v [] = [(k, v)]"
| "insert_index k v ((k', v') # m) =
     (if isArrayIndex k' \<and> parseNat k' < parseNat k then (k', v') # insert_index k v m
      else (k, v) # (k', v') # m)"

definition assign_obj :: "string \<Rightarrow> 'v \<Rightarrow> (string \<times> 'v) list \<Rightarrow> (string \<times> 'v) list" where
  "assign_obj k v m =
     (if k \<in> set (map fst m) then assign k v m
      else if isArrayIndex k then insert_index k v m
      else m @ [(k, v)])"

text \<open>
  Whitespace as \<^verbatim>\<open>String.prototype.trim\<close> and the regular expression class
  \<^verbatim>\<open>\s\<close> see it, among the code units 0..255: tab, line feed, vertical tab, form feed,
  carriage return, space and the no-break space.
\<close>

definition isWhitespace :: "char \<Rightarrow> bool" where
  "isWhitespace c = (of_char c \<in> {9, 10, 11, 12, 13, 32, 160 :: nat})"

definition trim :: "string \<Rightarrow> string" where
  "trim s = rev (dropWhile isWhitespace (rev (dropWhile isWhitespace s)))"

definition toLower :: "char \<Rightarrow> char" where
  "toLower c = (let n = of_char c :: nat in if 65 \<le> n \<and> n \<le> 90 then char_of (n + 32) else c)"

text \<open>\<^verbatim>\<open>s.replace(/pat/gi, rep)\<close> for a literal pattern: every match, left to right, ignoring case.\<close>

fun replace_gi :: "string \<Rightarrow> string \<Rightarrow> string \<Rightarrow> string" where
  "replace_gi pat rep [] = []"
| "replace_gi pat rep (c # cs) =
     (if pat \<noteq> [] \<and> map toLower (take (length pat) (c # cs)) = map toLower pat
      then rep @ replace_gi pat rep (drop (length pat - 1) cs)
      else c # replace_gi pat rep cs)"

text \<open>\<^verbatim>\<open>s.replace(/c/g, d)\<close> for a single character.\<close>

definition replace_char :: "char \<Rightarrow> char \<Rightarrow> string \<Rightarrow> string" where
  "replace_char c d s = map (\<lambda>x. if x = c then d else x) s"

text \<open>
  \<^verbatim>\<open>s.replace(/=+$/, '')\<close>: the leftmost match of a run of \<^verbatim>\<open>=\<close> that reaches the end of
  the string is the whole trailing run, and it is removed.
\<close>

definition strip_trailing_eq :: "string \<Rightarrow> string" where
  "strip_trailing_eq s = rev (dropWhile (\<lambda>c. c = CHR ''='') (rev s))"

fun includes_str :: "string \<Rightarrow> string \<Rightarrow> bool" where
  "includes_str [] sub = (sub = [])"
| "includes_str (c # cs) sub = (take (length sub) (c # cs) = sub \<or> includes_str cs sub)"

definition endsWith :: "string \<Rightarrow> string \<Rightarrow> bool" where
  "endsWith s suffix = (length suffix \<le> length s \<and> drop (length s - length suffix) s = suffix)"

fun split_on :: "char \<Rightarrow> string \<Rightarrow> string list" where
  "split_on sep [] = [[]]"
| "split_on sep (c # cs) =
     (if c = sep then [] # split_on sep cs
      else (case split_on sep cs of p # ps \<Rightarrow> (c # p) # ps | [] \<Rightarrow> [[c]]))"

text \<open>A number in a template literal: the decimal digits of a natural number.\<close>

fun showNat :: "nat \<Rightarrow> string" where
  "showNat n = (if n < 10 then [char_of (48 + n)] else showNat (n div 10) @ [char_of (48 + n mod 10)])"

text \<open>
  Standard base64 with padding, as \<^verbatim>\<open>Buffer.toString('base64')\<close> and \<^verbatim>\<open>btoa\<close> of the
  platform produce it from a sequence of bytes.
\<close>

definition b64 :: "nat \<Rightarrow> char" where
  "b64 i = ''ABCDEFGHIJKLMNOPQRSTUVWXYZabcdefghijklmnopqrstuvwxyz0123456789+/'' ! (i mod 64)"

fun base64 :: "8 word list \<Rightarrow> string" where
  "base64 [] = []"
| "base64 [a] = [b64 (unat a div 4), b64 (unat a mod 4 * 16), CHR ''='', CHR ''='']"
| "base64 [a, b] =
     [b64 (unat a div 4), b64 (unat a mod 4 * 16 + unat b div 16), b64 (unat b mod 16 * 4), CHR ''='']"
| "base64 (a # b # c # bs) =
     [b64 (unat a div 4), b64 (unat a mod 4 * 16 + unat b div 16),
      b64 (unat b mod 16 * 4 + unat c div 64), b64 (unat c mod 64)] @ base64 bs"

text \<open>A thrown \<^verbatim>\<open>Error\<close> object.\<close>

record jsError =
  name :: string
  message :: string

definition newError :: "string \<Rightarrow> jsError" where
  "newError msg = \<lparr>name = ''Error'', message = msg\<rparr>"

section \<open>The diagram cache (src/diagram-cache.ts)\<close>

record DiagramCacheEntry =
  source_e :: string
  renderedContent :: string
  timestamp :: int
  diagramType_e :: string
  outputFormat_e :: string

text \<open>
  The class holds a \<^verbatim>\<open>Map\<close> from key to entry and the two bounds given to the constructor.
  \<^verbatim>\<open>Date.now()\<close> is an argument \<open>now\<close> of every operation that reads the clock.
\<close>

record DiagramCache =
  cache :: "(string \<times> DiagramCacheEntry) list"
  maxCacheSize :: nat
  maxCacheAge :: int

definition newDiagramCache :: "nat \<Rightarrow> int \<Rightarrow> DiagramCache" where
  "newDiagramCache n a = \<lparr>cache = [], maxCacheSize = n, maxCacheAge = a\<rparr>"

definition generateKey :: "string \<Rightarrow> string \<Rightarrow> string \<Rightarrow> string option \<Rightarrow> string" where
  "generateKey source diagramType outputFormat file =
     (let key = diagramType @ '':'' @ outputFormat @ '':'' @ source
      in case file of None \<Rightarrow> key | Some path \<Rightarrow> key @ '':'' @ path)"

definition get_cache ::
  "DiagramCache \<Rightarrow> int \<Rightarrow> string \<Rightarrow> string \<Rightarrow> string \<Rightarrow> string option
     \<Rightarrow> string option \<times> DiagramCache" where
  "get_cache c now source diagramType outputFormat file =
     (let key = generateKey source diagramType outputFormat file
      in case map_of (cache c) key of
           Some entry \<Rightarrow>
             if now - timestamp entry \<le> maxCacheAge c
             then (Some (renderedContent entry), c)
             else (None, c\<lparr>cache := delete_key key (cache c)\<rparr>)
         | None \<Rightarrow> (None, c))"

text \<open>
  \<^verbatim>\<open>pruneCache\<close> sorts the entries by timestamp (the sort of an array is stable) and
  deletes the keys of the first \<^verbatim>\<open>Math.floor(maxCacheSize * 0.2)\<close> of them. For a
  natural number below \<open>2^50\<close> the floating-point product floors to \<open>maxCacheSize div 5\<close>.
\<close>

definition pruneCache :: "DiagramCache \<Rightarrow> DiagramCache" where
  "pruneCache c =
     (let entries = sort_key (\<lambda>p. timestamp (snd p)) (cache c);
          entriesToRemove = take (maxCacheSize c div 5) entries
      in c\<lparr>cache := fold (\<lambda>p m. delete_key (fst p) m) entriesToRemove (cache c)\<rparr>)"

definition set_cache ::
  "DiagramCache \<Rightarrow> int \<Rightarrow> string \<Rightarrow> string \<Rightarrow> string \<Rightarrow> string \<Rightarrow> string option
     \<Rightarrow> DiagramCache" where
  "set_cache c now source content diagramType outputFormat file =
     (let key = generateKey source diagramType outputFormat file;
          entry = \<lparr>source_e = source, renderedContent = content, timestamp = now,
                   diagramType_e = diagramType, outputFormat_e = outputFormat\<rparr>;
          c1 = c\<lparr>cache := assign key entry (cache c)\<rparr>
      in if length (cache c1) > maxCacheSize c1 then pruneCache c1 else c1)"

definition remove_cache ::
  "DiagramCache \<Rightarrow> string \<Rightarrow> string \<Rightarrow> string \<Rightarrow> string option \<Rightarrow> bool \<times> DiagramCache" where
  "remove_cache c source diagramType outputFormat file =
     (let key = generateKey source diagramType outputFormat file
      in (key \<in> fst ` set (cache c), c\<lparr>cache := delete_key key (cache c)\<rparr>))"

definition clear_cache :: "DiagramCache \<Rightarrow> DiagramCache" where
  "clear_cache c = c\<lparr>cache := []\<rparr>"

definition pruneExpiredEntries :: "DiagramCache \<Rightarrow> int \<Rightarrow> DiagramCache" where
  "pruneExpiredEntries c now =
     c\<lparr>cache := filter (\<lambda>p. \<not> now - timestamp (snd p) > maxCacheAge c) (cache c)\<rparr>"

definition size_cache :: "DiagramCache \<Rightarrow> nat" where
  "size_cache c = length (cache c)"

text \<open>The keys of a \<^verbatim>\<open>Map\<close> are pairwise different; every operation keeps them so.\<close>

definition wf_cache :: "DiagramCache \<Rightarrow> bool" where
  "wf_cache c = distinct (map fst (cache c))"

section \<open>The Kroki client (src/kroki-client.ts)\<close>

record KrokiRequestOptions =
  diagramType :: string
  outputFormat :: string
  source :: string
  serverUrl :: string
  customHeaders :: "(string \<times> string) list option"
  timeout :: "int option"
  retryCount :: "int option"
  retryDelay :: "int option"

record KrokiResponse =
  success :: bool
  data :: "string option"
  error :: "string option"
  statusCode :: "nat option"

text \<open>
  What \<^verbatim>\<open>requestUrl\<close> of the host takes and gives. Every request of the client carries
  \<^verbatim>\<open>throw: false\<close>, so an error status comes back as a response.
\<close>

record RequestUrlParam =
  url :: string
  method_p :: string
  headers :: "(string \<times> string) list"
  body :: "string option"

record RequestUrlResponse =
  status :: nat
  text_r :: string
  arrayBuffer :: "8 word list option"
  headers_r :: "(string \<times> string) list"

text \<open>
  The network is a function of the requests sent so far and the request at hand; it answers
  with a response or throws. The world records every call of \<^verbatim>\<open>requestUrl\<close> and every
  delay slept, in order.
\<close>

type_synonym transport = "RequestUrlParam list \<Rightarrow> RequestUrlParam \<Rightarrow> jsError + RequestUrlResponse"

record world =
  calls :: "RequestUrlParam list"
  delays :: "int list"

text \<open>
  \<^verbatim>\<open>pako.deflate(source, {level: 9})\<close> is the library's; it is a parameter \<open>deflate\<close>
  that returns the compressed bytes, or \<open>None\<close> where the \<^verbatim>\<open>try\<close> block throws.
\<close>

definition encodeDiagramSource :: "(string \<Rightarrow> 8 word list option) \<Rightarrow> string \<Rightarrow> jsError + string" where
  "encodeDiagramSource deflate src =
     (let s1 = trim src;
          s2 = replace_gi ''&nbsp;'' '' '' s1;
          s3 = replace_gi ''&gt;'' ''>'' s2;
          s4 = replace_gi ''&lt;'' ''<'' s3
      in case deflate s4 of
           None \<Rightarrow> Inl (newError ''Failed to encode diagram source'')
         | Some compressed \<Rightarrow>
             Inr (strip_trailing_eq
                    (replace_char CHR ''/'' CHR ''_''
                       (replace_char CHR ''+'' CHR ''-'' (base64 compressed)))))"

definition arrayBufferToDataUrl :: "8 word list \<Rightarrow> string option \<Rightarrow> string" where
  "arrayBufferToDataUrl buffer mimeType =
     ''data:'' @ (case mimeType of None \<Rightarrow> ''undefined'' | Some m \<Rightarrow> m) @ '';base64,'' @ base64 buffer"

definition processResponse :: "RequestUrlResponse \<Rightarrow> KrokiResponse" where
  "processResponse response =
     (if 200 \<le> status response \<and> status response < 300
      then \<lparr>success = True,
            data = Some (case arrayBuffer response of
                           Some buffer \<Rightarrow>
                             arrayBufferToDataUrl buffer (map_of (headers_r response) ''content-type'')
                         | None \<Rightarrow> text_r response),
            error = None,
            statusCode = Some (status response)\<rparr>
      else \<lparr>success = False,
            data = None,
            error = Some (if text_r response \<noteq> [] then text_r response
                          else ''HTTP error '' @ showNat (status response)),
            statusCode = Some (status response)\<rparr>)"

definition delay :: "int \<Rightarrow> world \<Rightarrow> world" where
  "delay ms w = w\<lparr>delays := delays w @ [ms]\<rparr>"

definition requestUrl :: "transport \<Rightarrow> RequestUrlParam \<Rightarrow> world \<Rightarrow> (jsError + RequestUrlResponse) \<times> world" where
  "requestUrl tr requestParams w = (tr (calls w) requestParams, w\<lparr>calls := calls w @ [requestParams]\<rparr>)"

text \<open>
  The loop of \<^verbatim>\<open>sendRequestWithRetry\<close>, from attempt number \<open>attempt\<close> with the
  \<open>lastError\<close> seen so far. A result \<open>Inl\<close> is a thrown error.
\<close>

function sendRequestWithRetry_from ::
  "transport \<Rightarrow> RequestUrlParam \<Rightarrow> int \<Rightarrow> int \<Rightarrow> nat \<Rightarrow> jsError option \<Rightarrow> world
     \<Rightarrow> (jsError + RequestUrlResponse) \<times> world" where
  "sendRequestWithRetry_from tr requestParams maxRetries rDelay attempt lastError w =
     (if int attempt < maxRetries then
        (case requestUrl tr requestParams w of
           (Inr response, w1) \<Rightarrow>
             if 200 \<le> status response \<and> status response < 300 then (Inr response, w1)
             else if 500 \<le> status response then
               sendRequestWithRetry_from tr requestParams maxRetries rDelay (Suc attempt)
                 (Some (newError (''Server error: '' @ showNat (status response) @ '' '' @ text_r response)))
                 (delay (rDelay * 2 ^ attempt) w1)
             else (Inr response, w1)
         | (Inl err, w1) \<Rightarrow>
             if name err = ''AbortError'' \<or> includes_str (message err) ''fetch'' then
               sendRequestWithRetry_from tr requestParams maxRetries rDelay (Suc attempt)
                 (Some err) (delay (rDelay * 2 ^ attempt) w1)
             else (Inl err, w1))
      else (case lastError of
              Some err \<Rightarrow> (Inl err, w)
            | None \<Rightarrow> (Inl (newError ''Unknown error during request''), w)))"
  by pat_completeness auto
termination
  by (relation "measure (\<lambda>(tr, requestParams, maxRetries, rDelay, attempt, lastError, w).
                   nat (maxRetries - int attempt))") auto

definition sendRequestWithRetry ::
  "transport \<Rightarrow> RequestUrlParam \<Rightarrow> int \<Rightarrow> int \<Rightarrow> world \<Rightarrow> (jsError + RequestUrlResponse) \<times> world" where
  "sendRequestWithRetry tr requestParams maxRetries rDelay w =
     sendRequestWithRetry_from tr requestParams maxRetries rDelay 0 None w"

text \<open>\<^verbatim>\<open>x || d\<close> for an optional number: the default replaces \<^verbatim>\<open>undefined\<close> and 0.\<close>

definition orElse :: "int option \<Rightarrow> int \<Rightarrow> int" where
  "orElse x d = (case x of None \<Rightarrow> d | Some n \<Rightarrow> if n = 0 then d else n)"

definition withSlash :: "string \<Rightarrow> string" where
  "withSlash u = (if endsWith u ''/'' then u else u @ ''/'')"

definition spread :: "(string \<times> string) list \<Rightarrow> (string \<times> string) list option \<Rightarrow> (string \<times> string) list" where
  "spread base extra =
     fold (\<lambda>p m. assign_obj (fst p) (snd p) m) (case extra of None \<Rightarrow> [] | Some h \<Rightarrow> h) base"

text \<open>The response built by the \<^verbatim>\<open>catch\<close> block of both senders.\<close>

definition caught :: "jsError \<Rightarrow> KrokiResponse" where
  "caught err =
     \<lparr>success = False, data = None,
      error = Some (if message err \<noteq> [] then message err else ''Unknown error occurred''),
      statusCode = None\<rparr>"

text \<open>The \<^verbatim>\<open>requestParams\<close> object of each sender.\<close>

definition getRequestParams :: "KrokiRequestOptions \<Rightarrow> string \<Rightarrow> RequestUrlParam" where
  "getRequestParams opts encodedSource =
     \<lparr>url = withSlash (serverUrl opts) @ diagramType opts @ ''/'' @ outputFormat opts
              @ ''/'' @ encodedSource,
      method_p = ''GET'',
      headers = spread [(''Accept'', ''image/svg+xml, image/png'')] (customHeaders opts),
      body = None\<rparr>"

definition postRequestParams :: "KrokiRequestOptions \<Rightarrow> RequestUrlParam" where
  "postRequestParams opts =
     \<lparr>url = withSlash (serverUrl opts) @ diagramType opts @ ''/'' @ outputFormat opts,
      method_p = ''POST'',
      headers = spread [(''Content-Type'', ''text/plain''),
                        (''Accept'', ''image/svg+xml, image/png'')] (customHeaders opts),
      body = Some (source opts)\<rparr>"

text \<open>
  Both senders return \<open>Inr\<close> of a response, or \<open>Inl\<close> of an error that leaves the function.
\<close>

definition sendGetRequest ::
  "(string \<Rightarrow> 8 word list option) \<Rightarrow> transport \<Rightarrow> KrokiRequestOptions \<Rightarrow> world
     \<Rightarrow> (jsError + KrokiResponse) \<times> world" where
  "sendGetRequest deflate tr opts w =
     (case encodeDiagramSource deflate (source opts) of
        Inl err \<Rightarrow> (Inr (caught err), w)
      | Inr encodedSource \<Rightarrow>
          (case sendRequestWithRetry tr (getRequestParams opts encodedSource)
                  (orElse (retryCount opts) 1) (orElse (retryDelay opts) 1000) w of
             (Inl err, w1) \<Rightarrow> (Inr (caught err), w1)
           | (Inr response, w1) \<Rightarrow> (Inr (processResponse response), w1)))"

definition sendPostRequest ::
  "transport \<Rightarrow> KrokiRequestOptions \<Rightarrow> world \<Rightarrow> (jsError + KrokiResponse) \<times> world" where
  "sendPostRequest tr opts w =
     (case sendRequestWithRetry tr (postRequestParams opts)
             (orElse (retryCount opts) 1) (orElse (retryDelay opts) 1000) w of
        (Inl err, w1) \<Rightarrow> (Inr (caught err), w1)
      | (Inr response, w1) \<Rightarrow> (Inr (processResponse response), w1))"

section \<open>The diagram detector (src/diagram-detector.ts)\<close>


record DiagramDetector =
  diagramTypes :: "(string \<times> string list) list"
  aliasMap :: "(string \<times> string) list"

definition buildAliasMap :: "DiagramDetector \<Rightarrow> DiagramDetector" where
  "buildAliasMap d =
     d\<lparr>aliasMap :=
         fold (\<lambda>(dtype, aliases) m. fold (\<lambda>alias m'. assign alias dtype m') aliases (assign dtype dtype m))
           (diagramTypes d) []\<rparr>"

definition newDiagramDetector :: "(string \<times> string list) list \<Rightarrow> DiagramDetector" where
  "newDiagramDetector types = buildAliasMap \<lparr>diagramTypes = types, aliasMap = []\<rparr>"

definition updateDiagramTypes :: "DiagramDetector \<Rightarrow> (string \<times> string list) list \<Rightarrow> DiagramDetector" where
  "updateDiagramTypes d types = buildAliasMap (d\<lparr>diagramTypes := types\<rparr>)"


definition isWordChar :: "char \<Rightarrow> bool" where
  "isWordChar c =
     (let n = of_char c :: nat
      in (48 \<le> n \<and> n \<le> 57) \<or> (65 \<le> n \<and> n \<le> 90) \<or> (97 \<le> n \<and> n \<le> 122) \<or> n = 95)"

definition isLineTerminator :: "char \<Rightarrow> bool" where
  "isLineTerminator c = (of_char c \<in> {10, 13 :: nat})"

text \<open>
  \<^verbatim>\<open>language.match(/^(\w+)\s*\{(.+)\}$/)\<close>. Word characters, whitespace and the brace are
  pairwise disjoint, so a match takes the longest run of word characters, then the longest
  run of whitespace, then needs the opening brace; the closing brace must be the last
  character of the string, and what stands between the two is the second group: at least
  one character, none of them a line terminator. The result is the two groups.
\<close>

definition matchLanguage :: "string \<Rightarrow> (string \<times> string) option" where
  "matchLanguage language =
     (let g1 = takeWhile isWordChar language;
          rest = dropWhile isWhitespace (dropWhile isWordChar language)
      in if g1 \<noteq> [] \<and> 3 \<le> length rest \<and> hd rest = CHR ''{'' \<and> last rest = CHR ''}''
            \<and> list_all (\<lambda>c. \<not> isLineTerminator c) (butlast (tl rest))
         then Some (g1, butlast (tl rest))
         else None)"

text \<open>
  One element of \<^verbatim>\<open>optionPairs\<close>: \<^verbatim>\<open>[key, value] = pair.split(':').map(s => s.trim())\<close>,
  stored when both are non-empty strings. Assigning a string to the key \<^verbatim>\<open>__proto__\<close> of
  an object stores nothing.
\<close>

definition addOptionPair :: "string \<Rightarrow> (string \<times> string) list \<Rightarrow> (string \<times> string) list" where
  "addOptionPair pair opts =
     (case map trim (split_on CHR '':'' pair) of
        key # val # _ \<Rightarrow>
          if key \<noteq> [] \<and> val \<noteq> [] \<and> key \<noteq> ''__proto__'' then assign_obj key val opts else opts
      | _ \<Rightarrow> opts)"

definition parseLanguageOptions :: "string \<Rightarrow> string \<times> (string \<times> string) list" where
  "parseLanguageOptions language =
     (if CHR ''{'' \<in> set language then
        (case matchLanguage language of
           Some (g1, optionsStr) \<Rightarrow> (g1, fold addOptionPair (split_on CHR '','' optionsStr) [])
         | None \<Rightarrow> (language, []))
      else (language, []))"


definition getSupportedLanguages :: "DiagramDetector \<Rightarrow> string list" where
  "getSupportedLanguages d = map fst (aliasMap d)"

section \<open>The diagram renderer (src/diagram-renderer.ts)\<close>

record DiagramRenderOptions =
  outputFormat_o :: string
  serverUrl_o :: string
  customHeaders_o :: "(string \<times> string) list option"
  timeout_o :: "int option"
  retryCount_o :: "int option"
  retryDelay_o :: "int option"
  useCache :: "bool option"
  debugMode :: "bool option"

record DiagramRenderer =
  cache_r :: DiagramCache
  detector :: DiagramDetector

definition newDiagramRenderer :: "(string \<times> string list) list \<Rightarrow> nat \<Rightarrow> int \<Rightarrow> DiagramRenderer" where
  "newDiagramRenderer types cacheSize cacheAge =
     \<lparr>cache_r = newDiagramCache cacheSize cacheAge, detector = newDiagramDetector types\<rparr>"

text \<open>A string that may be undefined or null, in a condition: true when present and not empty.\<close>

definition truthy :: "string option \<Rightarrow> bool" where
  "truthy x = (case x of None \<Rightarrow> False | Some s \<Rightarrow> s \<noteq> [])"

definition requestOptionsOf :: "string \<Rightarrow> string \<Rightarrow> DiagramRenderOptions \<Rightarrow> KrokiRequestOptions" where
  "requestOptionsOf src dtype options =
     \<lparr>diagramType = dtype, outputFormat = outputFormat_o options, source = src,
      serverUrl = serverUrl_o options, customHeaders = customHeaders_o options,
      timeout = timeout_o options, retryCount = retryCount_o options,
      retryDelay = retryDelay_o options\<rparr>"

text \<open>
  The \<^verbatim>\<open>try\<close> block of \<^verbatim>\<open>renderDiagram\<close>: GET first, POST when the GET response is a failure
  whose status code is not 400; an error thrown by either sender is wrapped and thrown on.
\<close>

definition renderDiagram_request ::
  "(string \<Rightarrow> 8 word list option) \<Rightarrow> transport \<Rightarrow> KrokiRequestOptions \<Rightarrow> world
     \<Rightarrow> (jsError + KrokiResponse) \<times> world" where
  "renderDiagram_request deflate tr requestOptions w =
     (case sendGetRequest deflate tr requestOptions w of
        (Inl err, w1) \<Rightarrow> (Inl (newError (''Failed to render diagram: '' @ message err)), w1)
      | (Inr response, w1) \<Rightarrow>
          if \<not> success response \<and> statusCode response \<noteq> Some 400 then
            (case sendPostRequest tr requestOptions w1 of
               (Inl err, w2) \<Rightarrow> (Inl (newError (''Failed to render diagram: '' @ message err)), w2)
             | (Inr response2, w2) \<Rightarrow> (Inr response2, w2))
          else (Inr response, w1))"

text \<open>
  \<^verbatim>\<open>renderDiagram\<close> reads the clock twice: \<open>nowGet\<close> inside \<^verbatim>\<open>cache.get\<close> and
  \<open>nowSet\<close> inside \<^verbatim>\<open>cache.set\<close>, after the network exchange. The result \<open>Inl\<close> is the
  thrown error, \<open>Inr\<close> the returned content. The function is written in three parts: the
  cache check at its head, the \<^verbatim>\<open>try\<close> block above, and everything after the cache check.
\<close>

definition cache_lookup ::
  "DiagramRenderOptions \<Rightarrow> DiagramRenderer \<Rightarrow> int \<Rightarrow> string \<Rightarrow> string \<Rightarrow> string option \<times> DiagramCache" where
  "cache_lookup options r nowGet src dtype =
     (if useCache options \<noteq> Some False
      then get_cache (cache_r r) nowGet src dtype (outputFormat_o options) None
      else (None, cache_r r))"

definition renderDiagram_fetch ::
  "(string \<Rightarrow> 8 word list option) \<Rightarrow> transport \<Rightarrow> string \<Rightarrow> string \<Rightarrow> DiagramRenderOptions
     \<Rightarrow> int \<Rightarrow> DiagramRenderer \<Rightarrow> world \<Rightarrow> (jsError + string) \<times> DiagramRenderer \<times> world" where
  "renderDiagram_fetch deflate tr src dtype options nowSet r w =
     (case renderDiagram_request deflate tr (requestOptionsOf src dtype options) w of
        (Inl err, w1) \<Rightarrow> (Inl err, r, w1)
      | (Inr response, w1) \<Rightarrow>
          (case (if success response \<and> truthy (data response) then data response else None) of
             Some content \<Rightarrow>
               (Inr content,
                (if useCache options \<noteq> Some False
                 then r\<lparr>cache_r := set_cache (cache_r r) nowSet src content dtype
                                      (outputFormat_o options) None\<rparr>
                 else r),
                w1)
           | None \<Rightarrow>
               (Inl (newError (''Failed to render diagram: ''
                       @ (case error response of
                            Some e \<Rightarrow> if e \<noteq> [] then e else ''Unknown error''
                          | None \<Rightarrow> ''Unknown error''))),
                r, w1)))"

definition renderDiagram ::
  "(string \<Rightarrow> 8 word list option) \<Rightarrow> transport \<Rightarrow> string \<Rightarrow> string \<Rightarrow> DiagramRenderOptions
     \<Rightarrow> int \<Rightarrow> int \<Rightarrow> DiagramRenderer \<Rightarrow> world \<Rightarrow> (jsError + string) \<times> DiagramRenderer \<times> world" where
  "renderDiagram deflate tr src dtype options nowGet nowSet r w =
     (case cache_lookup options r nowGet src dtype of
        (cachedContent, c1) \<Rightarrow>
          (case (if truthy cachedContent then cachedContent else None) of
             Some content \<Rightarrow> (Inr content, r\<lparr>cache_r := c1\<rparr>, w)
           | None \<Rightarrow> renderDiagram_fetch deflate tr src dtype options nowSet (r\<lparr>cache_r := c1\<rparr>) w))"

text \<open>
  What holds of the cache of a renderer: its keys are pairwise different, no entry is newer
  than the time \<open>t\<close>, and no cached content is empty (\<^verbatim>\<open>renderDiagram\<close> stores only
  non-empty data). And what it is for the entry of a triple to be within the age bound at a
  time.
\<close>

definition cache_inv :: "DiagramCache \<Rightarrow> int \<Rightarrow> bool" where
  "cache_inv c t =
     (wf_cache c \<and> list_all (\<lambda>p. timestamp (snd p) \<le> t \<and> renderedContent (snd p) \<noteq> []) (cache c))"

definition within_age :: "DiagramCache \<Rightarrow> int \<Rightarrow> string \<Rightarrow> string \<Rightarrow> string \<Rightarrow> bool" where
  "within_age c now src dtype fmt =
     (case map_of (cache c) (generateKey src dtype fmt None) of
        None \<Rightarrow> True
      | Some entry \<Rightarrow> now - timestamp entry \<le> maxCacheAge c)"

section \<open>Example inputs\<close>

text \<open>
  A table of \<open>deflate\<close> with two entries, the bytes zlib gives at level 9; it fails
  elsewhere. And one that always fails.
\<close>

definition ex_deflate :: "string \<Rightarrow> 8 word list option" where
  "ex_deflate s =
     (if s = ''A->B'' then Some [120, 218, 115, 212, 181, 115, 2, 0, 2, 77, 0, 239]
      else if s = ''fgyy>'' then Some [120, 218, 75, 75, 175, 172, 180, 3, 0, 6, 58, 1, 254]
      else None)"

definition ex_deflate_fails :: "string \<Rightarrow> 8 word list option" where
  "ex_deflate_fails s = None"

definition ex_world :: world where
  "ex_world = \<lparr>calls = [], delays = []\<rparr>"

definition ex_request :: KrokiRequestOptions where
  "ex_request =
     \<lparr>diagramType = ''plantuml'', outputFormat = ''svg'', source = ''A->B'',
      serverUrl = ''https://kroki.io'', customHeaders = None, timeout = Some 10000,
      retryCount = Some 3, retryDelay = Some 1000\<rparr>"

definition ex_options :: DiagramRenderOptions where
  "ex_options =
     \<lparr>outputFormat_o = ''svg'', serverUrl_o = ''https://kroki.io'', customHeaders_o = None,
      timeout_o = Some 10000, retryCount_o = Some 3, retryDelay_o = Some 1000,
      useCache = None, debugMode = None\<rparr>"

definition ex_renderer :: DiagramRenderer where
  "ex_renderer = newDiagramRenderer [(''plantuml'', [''puml''])] 100 3600000"

definition ex_response :: "nat \<Rightarrow> string \<Rightarrow> RequestUrlResponse" where
  "ex_response st txt = \<lparr>status = st, text_r = txt, arrayBuffer = None, headers_r = []\<rparr>"

text \<open>
  Transports: one that always answers 503 with the same body, one that always answers 503
  with a body that counts the requests made before, and one given by a status for GET and
  one for POST.
\<close>

definition ex_always_503 :: transport where
  "ex_always_503 history requestParams = Inr (ex_response 503 ''Service Unavailable'')"

definition ex_varying_503 :: transport where
  "ex_varying_503 history requestParams = Inr (ex_response 503 (''busy '' @ showNat (length history)))"

definition ex_transport :: "nat \<Rightarrow> string \<Rightarrow> nat \<Rightarrow> string \<Rightarrow> transport" where
  "ex_transport getStatus getText postStatus postText history requestParams =
     (if method_p requestParams = ''GET'' then Inr (ex_response getStatus getText)
      else Inr (ex_response postStatus postText))"

definition ex_cache :: DiagramCache where
  "ex_cache = set_cache (newDiagramCache 100 1000) 0 ''A->B'' ''<svg/>'' ''plantuml'' ''svg'' None"

definition ex_entry :: DiagramCacheEntry where
  "ex_entry = \<lparr>source_e = ''A->B'', renderedContent = ''<svg/>'', timestamp = 0,
               diagramType_e = ''plantuml'', outputFormat_e = ''svg''\<rparr>"

definition ex_five_sets :: "nat \<Rightarrow> DiagramCache" where
  "ex_five_sets n =
     set_cache (set_cache (set_cache (set_cache (set_cache (newDiagramCache n 3600000)
       1 ''a'' ''<svg/>'' ''plantuml'' ''svg'' None)
       2 ''b'' ''<svg/>'' ''plantuml'' ''svg'' None)
       3 ''c'' ''<svg/>'' ''plantuml'' ''svg'' None)
       4 ''d'' ''<svg/>'' ''plantuml'' ''svg'' None)
       5 ''e'' ''<svg/>'' ''plantuml'' ''svg'' None"

definition ex_exhausted :: KrokiResponse where
  "ex_exhausted =
     \<lparr>success = False, data = None, error = Some ''Server error: 503 Service Unavailable'',
      statusCode = None\<rparr>"


definition ex_ro :: KrokiRequestOptions where
  "ex_ro = requestOptionsOf ''A->B'' ''plantuml'' ex_options"

definition ex_failed :: "nat \<Rightarrow> string \<Rightarrow> KrokiResponse" where
  "ex_failed st msg = \<lparr>success = False, data = None, error = Some msg, statusCode = Some st\<rparr>"

definition ex_empty_entry :: DiagramCacheEntry where
  "ex_empty_entry = \<lparr>source_e = ''A->B'', renderedContent = [], timestamp = 0,
                     diagramType_e = ''plantuml'', outputFormat_e = ''svg''\<rparr>"

definition ex_empty_cached :: DiagramRenderer where
  "ex_empty_cached =
     ex_renderer\<lparr>cache_r := set_cache (newDiagramCache 100 3600000) 0 ''A->B'' [] ''plantuml'' ''svg'' None\<rparr>"

text \<open>Two renders of the same triple, one after the other, with the cache enabled.\<close>

definition ex_first :: "transport \<Rightarrow> (jsError + string) \<times> DiagramRenderer \<times> world" where
  "ex_first tr = renderDiagram ex_deflate tr ''A->B'' ''plantuml'' ex_options 1 5 ex_renderer ex_world"

definition ex_second :: "transport \<Rightarrow> (jsError + string) \<times> DiagramRenderer \<times> world" where
  "ex_second tr =
     renderDiagram ex_deflate tr ''A->B'' ''plantuml'' ex_options 10 15
       (fst (snd (ex_first tr))) (snd (snd (ex_first tr)))"

section \<open>Properties of the cache\<close>

lemma assign_keys: "fst ` set (assign k v m) = insert k (fst ` set m)"
  by (induction k v m rule: assign.induct) (simp_all add: insert_commute)

lemma assign_distinct: "distinct (map fst m) \<Longrightarrow> distinct (map fst (assign k v m))"
  by (induction k v m rule: assign.induct) (auto simp: assign_keys)

lemma assign_length:
  "length (assign k v m) = (if k \<in> fst ` set m then length m else Suc (length m))"
  by (induction k v m rule: assign.induct) auto

lemma assign_absent: "k \<notin> fst ` set m \<Longrightarrow> assign k v m = m @ [(k, v)]"
  by (induction k v m rule: assign.induct) auto

lemma map_of_assign: "map_of (assign k v m) k' = (if k' = k then Some v else map_of m k')"
  by (induction k v m rule: assign.induct) auto

lemma delete_key_absent: "k \<notin> fst ` set m \<Longrightarrow> delete_key k m = m"
  by (induction m) (auto simp: delete_key_def)

lemma delete_key_length:
  "distinct (map fst m) \<Longrightarrow> k \<in> fst ` set m \<Longrightarrow> Suc (length (delete_key k m)) = length m"
proof (induction m)
  case Nil
  then show ?case by simp
next
  case (Cons p m)
  show ?case
  proof (cases "fst p = k")
    case True
    with Cons.prems have "k \<notin> fst ` set m" by auto
    then have "delete_key k m = m" by (rule delete_key_absent)
    with True show ?thesis by (simp add: delete_key_def)
  next
    case False
    with Cons.prems have "distinct (map fst m)" "k \<in> fst ` set m" by auto
    then have "Suc (length (delete_key k m)) = length m" by (rule Cons.IH)
    with False show ?thesis by (simp add: delete_key_def)
  qed
qed

lemma delete_key_keys: "fst ` set (delete_key k m) = fst ` set m - {k}"
  by (induction m) (auto simp: delete_key_def)

lemma delete_key_distinct: "distinct (map fst m) \<Longrightarrow> distinct (map fst (delete_key k m))"
  by (simp add: delete_key_def distinct_map_filter)

lemma map_of_delete_key: "map_of (delete_key k m) k' = (if k' = k then None else map_of m k')"
  by (induction m) (auto simp: delete_key_def)

lemma map_of_Some_key: "map_of m k = Some v \<Longrightarrow> k \<in> fst ` set m"
  by (metis domI dom_map_of_conv_image_fst)

lemma delete_all_distinct:
  "distinct (map fst m) \<Longrightarrow> distinct (map fst (fold (\<lambda>p m'. delete_key (fst p) m') ps m))"
  by (induction ps arbitrary: m) (simp_all add: delete_key_distinct)

lemma delete_all_subset: "set (fold (\<lambda>p m'. delete_key (fst p) m') ps m) \<subseteq> set m"
proof (induction ps arbitrary: m)
  case Nil
  show ?case by simp
next
  case (Cons p ps)
  have "set (fold (\<lambda>p m'. delete_key (fst p) m') ps (delete_key (fst p) m)) \<subseteq> set (delete_key (fst p) m)"
    by (rule Cons.IH)
  also have "\<dots> \<subseteq> set m" by (auto simp: delete_key_def)
  finally show ?case by simp
qed

lemma delete_all_length:
  "distinct (map fst m) \<Longrightarrow> distinct (map fst ps) \<Longrightarrow> fst ` set ps \<subseteq> fst ` set m
     \<Longrightarrow> length (fold (\<lambda>p m'. delete_key (fst p) m') ps m) + length ps = length m"
proof (induction ps arbitrary: m)
  case Nil
  show ?case by simp
next
  case (Cons p ps)
  let ?m = "delete_key (fst p) m"
  have d: "distinct (map fst ?m)" using Cons.prems(1) by (rule delete_key_distinct)
  have "fst p \<notin> fst ` set ps" and "fst ` set ps \<subseteq> fst ` set m"
    using Cons.prems(2,3) by simp_all
  then have "fst ` set ps \<subseteq> fst ` set ?m"
    unfolding delete_key_keys by blast
  with d Cons.prems(2)
  have "length (fold (\<lambda>p m'. delete_key (fst p) m') ps ?m) + length ps = length ?m"
    by (intro Cons.IH) simp_all
  moreover have "Suc (length ?m) = length m"
    using Cons.prems(1,3) by (intro delete_key_length) simp_all
  ultimately show ?case by simp
qed

lemma map_of_delete_all:
  "k \<notin> fst ` set ps \<Longrightarrow> map_of (fold (\<lambda>p m'. delete_key (fst p) m') ps m) k = map_of m k"
  by (induction ps arbitrary: m) (simp_all add: map_of_delete_key)

lemma sorted_keys_distinct:
  "distinct (map fst m) \<Longrightarrow> distinct (map fst (sort_key f m))"
  by (simp add: distinct_map)

lemma pruneCache_length:
  assumes "wf_cache c"
  shows "length (cache (pruneCache c)) = length (cache c) - min (maxCacheSize c div 5) (length (cache c))"
proof -
  let ?ps = "take (maxCacheSize c div 5) (sort_key (\<lambda>p. timestamp (snd p)) (cache c))"
  have d: "distinct (map fst (cache c))" using assms by (simp add: wf_cache_def)
  have "distinct (take (maxCacheSize c div 5) (map fst (sort_key (\<lambda>p. timestamp (snd p)) (cache c))))"
    using sorted_keys_distinct [OF d] by (rule distinct_take)
  then have "distinct (map fst ?ps)"
    by (simp add: take_map)
  moreover have "fst ` set ?ps \<subseteq> fst ` set (cache c)"
    using set_take_subset [of "maxCacheSize c div 5" "sort_key (\<lambda>p. timestamp (snd p)) (cache c)"]
    by auto
  ultimately have "length (fold (\<lambda>p m'. delete_key (fst p) m') ?ps (cache c)) + length ?ps = length (cache c)"
    using d by (intro delete_all_length)
  then show ?thesis by (simp add: pruneCache_def Let_def)
qed

lemma wf_cache_new: "wf_cache (newDiagramCache n a)"
  by (simp add: wf_cache_def newDiagramCache_def)

lemma wf_cache_prune: "wf_cache c \<Longrightarrow> wf_cache (pruneCache c)"
  by (simp add: wf_cache_def pruneCache_def Let_def delete_all_distinct)

lemma wf_cache_set: "wf_cache c \<Longrightarrow> wf_cache (set_cache c now src content dtype fmt file)"
proof -
  assume "wf_cache c"
  then have "wf_cache (c\<lparr>cache := assign (generateKey src dtype fmt file)
      \<lparr>source_e = src, renderedContent = content, timestamp = now,
       diagramType_e = dtype, outputFormat_e = fmt\<rparr> (cache c)\<rparr>)"
    by (simp add: wf_cache_def assign_distinct)
  then show ?thesis
    by (simp add: set_cache_def Let_def wf_cache_prune)
qed

lemma wf_cache_get: "wf_cache c \<Longrightarrow> wf_cache (snd (get_cache c now src dtype fmt file))"
  by (simp add: get_cache_def Let_def wf_cache_def delete_key_distinct split: option.splits)

text \<open>
  From a maximum size of five on, \<^verbatim>\<open>set\<close> keeps the cache within its bound: the prune
  deletes \<open>maxCacheSize div 5\<close> entries, which is at least one.
\<close>

lemma set_cache_capacity:
  assumes "wf_cache c" and "5 \<le> maxCacheSize c" and "size_cache c \<le> maxCacheSize c"
  shows "size_cache (set_cache c now src content dtype fmt file) \<le> maxCacheSize c"
proof -
  let ?c1 = "c\<lparr>cache := assign (generateKey src dtype fmt file)
      \<lparr>source_e = src, renderedContent = content, timestamp = now,
       diagramType_e = dtype, outputFormat_e = fmt\<rparr> (cache c)\<rparr>"
  have wf1: "wf_cache ?c1" using assms(1) by (simp add: wf_cache_def assign_distinct)
  have len1: "length (cache ?c1) \<le> Suc (maxCacheSize c)"
    using assms(3) by (simp add: size_cache_def assign_length)
  show ?thesis
  proof (cases "length (cache ?c1) > maxCacheSize ?c1")
    case True
    have "1 \<le> maxCacheSize c div 5" using assms(2) by simp
    then have "length (cache (pruneCache ?c1)) \<le> maxCacheSize c"
      using len1 True pruneCache_length [OF wf1] by simp
    with True show ?thesis by (simp add: set_cache_def Let_def size_cache_def)
  next
    case False
    then show ?thesis by (simp add: set_cache_def Let_def size_cache_def)
  qed
qed

subsection \<open>Capacity\<close>

text \<open>
  C1. The size of the cache is at most its maximum size after every \<^verbatim>\<open>set\<close>. The code
  misses this for a maximum size below five, where \<^verbatim>\<open>Math.floor(maxCacheSize * 0.2)\<close> is
  zero and \<^verbatim>\<open>pruneCache\<close> deletes nothing: with maximum size 4, five calls of \<^verbatim>\<open>set\<close>
  with different keys leave five entries, and with maximum size 0 one call leaves one.
\<close>

theorem set_cache_exceeds_small_capacity:
  "maxCacheSize (ex_five_sets 4) = 4 \<and> size_cache (ex_five_sets 4) = 5
   \<and> size_cache (set_cache (newDiagramCache 0 3600000) 1 ''a'' ''<svg/>'' ''plantuml'' ''svg'' None) = 1"
  by code_simp

subsection \<open>Expiry\<close>

text \<open>
  C7. A \<^verbatim>\<open>get\<close> of an entry whose age is more than the maximum age is a miss, the entry
  is no longer in the cache afterwards, and the size is one less than before. (At an age of
  exactly the maximum age the entry is still served.)
\<close>

theorem get_cache_expired:
  assumes "wf_cache c"
    and "map_of (cache c) (generateKey src dtype fmt file) = Some entry"
    and "now - timestamp entry > maxCacheAge c"
  shows "fst (get_cache c now src dtype fmt file) = None
       \<and> map_of (cache (snd (get_cache c now src dtype fmt file))) (generateKey src dtype fmt file) = None
       \<and> Suc (size_cache (snd (get_cache c now src dtype fmt file))) = size_cache c"
proof -
  have "generateKey src dtype fmt file \<in> fst ` set (cache c)"
    using assms(2) by (rule map_of_Some_key)
  then have "Suc (length (delete_key (generateKey src dtype fmt file) (cache c))) = length (cache c)"
    using assms(1) by (intro delete_key_length) (simp_all add: wf_cache_def)
  then show ?thesis
    using assms(2,3) by (simp add: get_cache_def Let_def size_cache_def map_of_delete_key)
qed


theorem get_cache_expired_witness:
  "wf_cache ex_cache
   \<and> map_of (cache ex_cache) (generateKey ''A->B'' ''plantuml'' ''svg'' None) = Some ex_entry
   \<and> 1001 - timestamp ex_entry > maxCacheAge ex_cache
   \<and> fst (get_cache ex_cache 1001 ''A->B'' ''plantuml'' ''svg'' None) = None
   \<and> map_of (cache (snd (get_cache ex_cache 1001 ''A->B'' ''plantuml'' ''svg'' None)))
        (generateKey ''A->B'' ''plantuml'' ''svg'' None) = None
   \<and> Suc (size_cache (snd (get_cache ex_cache 1001 ''A->B'' ''plantuml'' ''svg'' None)))
        = size_cache ex_cache"
proof -
  have h1: "wf_cache ex_cache" by code_simp
  have h2: "map_of (cache ex_cache) (generateKey ''A->B'' ''plantuml'' ''svg'' None) = Some ex_entry"
    by code_simp
  have h3: "1001 - timestamp ex_entry > maxCacheAge ex_cache" by code_simp
  from get_cache_expired [OF h1 h2 h3] h1 h2 h3 show ?thesis by simp
qed

section \<open>Properties of the client\<close>

declare sendRequestWithRetry_from.simps [simp del]

lemma retry_calls:
  "sendRequestWithRetry_from tr q m d a le w = (res, w')
     \<Longrightarrow> \<exists>n. calls w' = calls w @ replicate n q \<and> int n \<le> max 0 (m - int a)"
proof (induction tr q m d a le w arbitrary: res w' rule: sendRequestWithRetry_from.induct)
  case (1 tr q m d a le w)
  show ?case
  proof (cases "int a < m")
    case False
    with "1.prems" have "w' = w"
      by (simp add: sendRequestWithRetry_from.simps split: option.splits)
    then show ?thesis by simp
  next
    case True
    let ?w1 = "w\<lparr>calls := calls w @ [q]\<rparr>"
    let ?w2 = "delay (d * 2 ^ a) ?w1"
    have stop: "w' = ?w1 \<Longrightarrow> ?thesis"
    proof -
      assume "w' = ?w1"
      then have "calls w' = calls w @ replicate 1 q \<and> int 1 \<le> max 0 (m - int a)"
        using True by simp
      then show ?thesis by blast
    qed
    have again: "\<exists>n. calls w' = calls ?w2 @ replicate n q \<and> int n \<le> max 0 (m - int (Suc a)) \<Longrightarrow> ?thesis"
    proof -
      assume "\<exists>n. calls w' = calls ?w2 @ replicate n q \<and> int n \<le> max 0 (m - int (Suc a))"
      then obtain n where n: "calls w' = calls ?w2 @ replicate n q" "int n \<le> max 0 (m - int (Suc a))"
        by blast
      then have "calls w' = calls w @ replicate (Suc n) q \<and> int (Suc n) \<le> max 0 (m - int a)"
        using True by (simp add: delay_def)
      then show ?thesis by blast
    qed
    show ?thesis
    proof (cases "tr (calls w) q")
      case (Inr response)
      show ?thesis
      proof (cases "200 \<le> status response \<and> status response < 300")
        case ok: True
        with "1.prems" True Inr have "w' = ?w1"
          by (simp add: sendRequestWithRetry_from.simps requestUrl_def)
        then show ?thesis by (rule stop)
      next
        case nok: False
        show ?thesis
        proof (cases "500 \<le> status response")
          case server: True
          let ?le = "Some (newError (''Server error: '' @ showNat (status response) @ '' '' @ text_r response))"
          from "1.prems" True Inr nok server
          have run: "sendRequestWithRetry_from tr q m d (Suc a) ?le ?w2 = (res, w')"
            by (subst (asm) sendRequestWithRetry_from.simps) (simp add: requestUrl_def)
          have eq: "(Inr response, ?w1) = requestUrl tr q w"
            using Inr by (simp add: requestUrl_def)
          have "\<exists>n. calls w' = calls ?w2 @ replicate n q \<and> int n \<le> max 0 (m - int (Suc a))"
            by (rule "1.IH"(2) [OF True eq refl nok server run])
          then show ?thesis by (rule again)
        next
          case client: False
          with "1.prems" True Inr nok have "w' = ?w1"
            by (simp add: sendRequestWithRetry_from.simps requestUrl_def)
          then show ?thesis by (rule stop)
        qed
      qed
    next
      case (Inl err)
      show ?thesis
      proof (cases "name err = ''AbortError'' \<or> includes_str (message err) ''fetch''")
        case retry: True
        from "1.prems" True Inl retry
        have run: "sendRequestWithRetry_from tr q m d (Suc a) (Some err) ?w2 = (res, w')"
          by (subst (asm) sendRequestWithRetry_from.simps) (simp add: requestUrl_def)
        have eq: "(Inl err, ?w1) = requestUrl tr q w"
          using Inl by (simp add: requestUrl_def)
        have "\<exists>n. calls w' = calls ?w2 @ replicate n q \<and> int n \<le> max 0 (m - int (Suc a))"
          by (rule "1.IH"(1) [OF True eq refl retry run])
        then show ?thesis by (rule again)
      next
        case False
        with "1.prems" True Inl have "w' = ?w1"
          by (simp add: sendRequestWithRetry_from.simps requestUrl_def)
        then show ?thesis by (rule stop)
      qed
    qed
  qed
qed


declare showNat.simps [simp del]

lemma showNat_503: "showNat 503 = ''503''"
  by code_simp

lemma retry_503_three:
  assumes "\<And>h q. \<exists>resp. tr h q = Inr resp \<and> status resp = 503"
  shows "\<exists>last. tr (calls w @ [q, q]) q = Inr last \<and> status last = 503
           \<and> sendRequestWithRetry tr q 3 d w =
               (Inl (newError (''Server error: 503 '' @ text_r last)),
                w\<lparr>calls := calls w @ [q, q, q], delays := delays w @ [d, d * 2, d * 4]\<rparr>)"
proof -
  obtain r1 where r1: "tr (calls w) q = Inr r1" "status r1 = 503"
    using assms by blast
  obtain r2 where r2: "tr (calls w @ [q]) q = Inr r2" "status r2 = 503"
    using assms by blast
  obtain r3 where r3: "tr (calls w @ [q, q]) q = Inr r3" "status r3 = 503"
    using assms by blast
  have "sendRequestWithRetry tr q 3 d w =
          (Inl (newError (''Server error: 503 '' @ text_r r3)),
           w\<lparr>calls := calls w @ [q, q, q], delays := delays w @ [d, d * 2, d * 4]\<rparr>)"
    using r1 r2 r3
    by (simp add: sendRequestWithRetry_def sendRequestWithRetry_from.simps requestUrl_def
          delay_def showNat_503)
  with r3 show ?thesis by blast
qed

lemma caught_failure: "\<not> success (caught err) \<and> truthy (error (caught err))"
  by (simp add: caught_def truthy_def)

lemma processResponse_variant: "success (processResponse response) \<or> truthy (error (processResponse response))"
  by (simp add: processResponse_def truthy_def)

lemma sendGetRequest_cases:
  "sendGetRequest deflate tr opts w =
     (case encodeDiagramSource deflate (source opts) of
        Inl err \<Rightarrow> (Inr (caught err), w)
      | Inr tok \<Rightarrow>
          (Inr (case fst (sendRequestWithRetry tr (getRequestParams opts tok)
                        (orElse (retryCount opts) 1) (orElse (retryDelay opts) 1000) w) of
                  Inl err \<Rightarrow> caught err | Inr response \<Rightarrow> processResponse response),
           snd (sendRequestWithRetry tr (getRequestParams opts tok)
                  (orElse (retryCount opts) 1) (orElse (retryDelay opts) 1000) w)))"
  by (simp add: sendGetRequest_def split: sum.splits prod.splits)

lemma sendPostRequest_cases:
  "sendPostRequest tr opts w =
     (Inr (case fst (sendRequestWithRetry tr (postRequestParams opts)
                   (orElse (retryCount opts) 1) (orElse (retryDelay opts) 1000) w) of
             Inl err \<Rightarrow> caught err | Inr response \<Rightarrow> processResponse response),
      snd (sendRequestWithRetry tr (postRequestParams opts)
             (orElse (retryCount opts) 1) (orElse (retryDelay opts) 1000) w))"
  by (simp add: sendPostRequest_def split: sum.splits prod.splits)

text \<open>
  C9. \<^verbatim>\<open>sendGetRequest\<close> and \<^verbatim>\<open>sendPostRequest\<close> always return a response and never throw;
  a response that is not a success carries a non-empty error message. A failure of the
  encoder and an error thrown by the retry loop (its retries exhausted among them) are
  turned into the failure response of the \<^verbatim>\<open>catch\<close> block. Thrown values are
  \<^verbatim>\<open>Error\<close> objects here, as the host and the code itself throw them, and every call
  of the host's \<^verbatim>\<open>requestUrl\<close> answers or throws; the loop then ends after at most
  \<^verbatim>\<open>maxRetries\<close> calls, which is the termination proof of \<open>sendRequestWithRetry_from\<close>.
\<close>

theorem senders_total:
  "(\<exists>r w'. sendGetRequest deflate tr opts w = (Inr r, w') \<and> (success r \<or> truthy (error r)))
   \<and> (\<exists>r w'. sendPostRequest tr opts w = (Inr r, w') \<and> (success r \<or> truthy (error r)))
   \<and> (encodeDiagramSource deflate (source opts) = Inl err
        \<longrightarrow> sendGetRequest deflate tr opts w = (Inr (caught err), w))
   \<and> (sendRequestWithRetry tr (postRequestParams opts)
          (orElse (retryCount opts) 1) (orElse (retryDelay opts) 1000) w = (Inl err, w1)
        \<longrightarrow> sendPostRequest tr opts w = (Inr (caught err), w1))
   \<and> (encodeDiagramSource deflate (source opts) = Inr tok
        \<and> sendRequestWithRetry tr (getRequestParams opts tok)
             (orElse (retryCount opts) 1) (orElse (retryDelay opts) 1000) w = (Inl err, w1)
        \<longrightarrow> sendGetRequest deflate tr opts w = (Inr (caught err), w1))
   \<and> \<not> success (caught err) \<and> truthy (error (caught err))"
proof -
  have get: "\<exists>r w'. sendGetRequest deflate tr opts w = (Inr r, w') \<and> (success r \<or> truthy (error r))"
    unfolding sendGetRequest_cases
    using caught_failure processResponse_variant by (auto split: sum.splits)
  have post: "\<exists>r w'. sendPostRequest tr opts w = (Inr r, w') \<and> (success r \<or> truthy (error r))"
    unfolding sendPostRequest_cases
    using caught_failure processResponse_variant by (auto split: sum.splits)
  have enc: "encodeDiagramSource deflate (source opts) = Inl err
        \<longrightarrow> sendGetRequest deflate tr opts w = (Inr (caught err), w)"
    by (simp add: sendGetRequest_def)
  have exh_post: "sendRequestWithRetry tr (postRequestParams opts)
          (orElse (retryCount opts) 1) (orElse (retryDelay opts) 1000) w = (Inl err, w1)
        \<longrightarrow> sendPostRequest tr opts w = (Inr (caught err), w1)"
    by (simp add: sendPostRequest_def)
  have exh_get: "encodeDiagramSource deflate (source opts) = Inr tok
        \<and> sendRequestWithRetry tr (getRequestParams opts tok)
             (orElse (retryCount opts) 1) (orElse (retryDelay opts) 1000) w = (Inl err, w1)
        \<longrightarrow> sendGetRequest deflate tr opts w = (Inr (caught err), w1)"
    by (simp add: sendGetRequest_def)
  from get post enc exh_post exh_get caught_failure show ?thesis by blast
qed


text \<open>
  C2, as the code has it. With \<^verbatim>\<open>retryCount\<close> 3 and a transport that answers every request
  with status 503, whatever the bodies, \<^verbatim>\<open>sendPostRequest\<close> calls the transport exactly three
  times (sleeping the delay, twice the delay and four times the delay) and returns the
  failure variant whose message is \<^verbatim>\<open>Server error: 503\<close> followed by a space and the body
  of the third, last response. \<^verbatim>\<open>sendGetRequest\<close> does the same when the source can be
  encoded, and makes no call when it cannot. The status code is carried in the message only:
  the \<^verbatim>\<open>statusCode\<close> field is not set, since the exhausted loop throws and the response is
  built by the \<^verbatim>\<open>catch\<close> block.
\<close>

theorem retry_exhausted_503:
  assumes "\<And>h q. \<exists>resp. tr h q = Inr resp \<and> status resp = 503"
    and "retryCount opts = Some 3"
  shows "(\<exists>last. tr (calls w @ [postRequestParams opts, postRequestParams opts]) (postRequestParams opts)
                  = Inr last
               \<and> sendPostRequest tr opts w =
                   (Inr \<lparr>success = False, data = None,
                         error = Some (''Server error: 503 '' @ text_r last), statusCode = None\<rparr>,
                    w\<lparr>calls := calls w @ replicate 3 (postRequestParams opts),
                      delays := delays w @ [orElse (retryDelay opts) 1000,
                                            orElse (retryDelay opts) 1000 * 2,
                                            orElse (retryDelay opts) 1000 * 4]\<rparr>))
       \<and> (case encodeDiagramSource deflate (source opts) of
             Inl err \<Rightarrow>
               sendGetRequest deflate tr opts w =
                 (Inr \<lparr>success = False, data = None,
                       error = Some ''Failed to encode diagram source'', statusCode = None\<rparr>, w)
           | Inr tok \<Rightarrow>
               (\<exists>last. tr (calls w @ [getRequestParams opts tok, getRequestParams opts tok])
                          (getRequestParams opts tok) = Inr last
                  \<and> sendGetRequest deflate tr opts w =
                      (Inr \<lparr>success = False, data = None,
                            error = Some (''Server error: 503 '' @ text_r last), statusCode = None\<rparr>,
                       w\<lparr>calls := calls w @ replicate 3 (getRequestParams opts tok),
                         delays := delays w @ [orElse (retryDelay opts) 1000,
                                               orElse (retryDelay opts) 1000 * 2,
                                               orElse (retryDelay opts) 1000 * 4]\<rparr>)))"
proof -
  have three: "orElse (retryCount opts) 1 = 3"
    using assms(2) by (simp add: orElse_def)
  have r3: "replicate 3 x = [x, x, x]" for x :: RequestUrlParam
    by (simp add: numeral_3_eq_3)
  have post: "\<exists>last. tr (calls w @ [postRequestParams opts, postRequestParams opts]) (postRequestParams opts)
                  = Inr last
               \<and> sendPostRequest tr opts w =
                   (Inr \<lparr>success = False, data = None,
                         error = Some (''Server error: 503 '' @ text_r last), statusCode = None\<rparr>,
                    w\<lparr>calls := calls w @ replicate 3 (postRequestParams opts),
                      delays := delays w @ [orElse (retryDelay opts) 1000,
                                            orElse (retryDelay opts) 1000 * 2,
                                            orElse (retryDelay opts) 1000 * 4]\<rparr>)"
  proof -
    from retry_503_three [where tr = tr and w = w and q = "postRequestParams opts"
        and d = "orElse (retryDelay opts) 1000", OF assms(1)]
    obtain last where
      "tr (calls w @ [postRequestParams opts, postRequestParams opts]) (postRequestParams opts) = Inr last"
      and "sendRequestWithRetry tr (postRequestParams opts) 3 (orElse (retryDelay opts) 1000) w =
             (Inl (newError (''Server error: 503 '' @ text_r last)),
              w\<lparr>calls := calls w @ [postRequestParams opts, postRequestParams opts, postRequestParams opts],
                delays := delays w @ [orElse (retryDelay opts) 1000, orElse (retryDelay opts) 1000 * 2,
                                      orElse (retryDelay opts) 1000 * 4]\<rparr>)"
      by blast
    then show ?thesis
      by (simp add: sendPostRequest_def three r3 caught_def newError_def)
  qed
  have get: "\<exists>last. tr (calls w @ [getRequestParams opts tok, getRequestParams opts tok])
                          (getRequestParams opts tok) = Inr last
                  \<and> sendGetRequest deflate tr opts w =
                      (Inr \<lparr>success = False, data = None,
                            error = Some (''Server error: 503 '' @ text_r last), statusCode = None\<rparr>,
                       w\<lparr>calls := calls w @ replicate 3 (getRequestParams opts tok),
                         delays := delays w @ [orElse (retryDelay opts) 1000,
                                               orElse (retryDelay opts) 1000 * 2,
                                               orElse (retryDelay opts) 1000 * 4]\<rparr>)"
    if enc: "encodeDiagramSource deflate (source opts) = Inr tok" for tok
  proof -
    from retry_503_three [where tr = tr and w = w and q = "getRequestParams opts tok"
        and d = "orElse (retryDelay opts) 1000", OF assms(1)]
    obtain last where
      "tr (calls w @ [getRequestParams opts tok, getRequestParams opts tok]) (getRequestParams opts tok)
         = Inr last"
      and "sendRequestWithRetry tr (getRequestParams opts tok) 3 (orElse (retryDelay opts) 1000) w =
             (Inl (newError (''Server error: 503 '' @ text_r last)),
              w\<lparr>calls := calls w @ [getRequestParams opts tok, getRequestParams opts tok,
                                     getRequestParams opts tok],
                delays := delays w @ [orElse (retryDelay opts) 1000, orElse (retryDelay opts) 1000 * 2,
                                      orElse (retryDelay opts) 1000 * 4]\<rparr>)"
      by blast
    then show ?thesis
      using enc by (simp add: sendGetRequest_def three r3 caught_def newError_def)
  qed
  have fail: "sendGetRequest deflate tr opts w =
                 (Inr \<lparr>success = False, data = None,
                       error = Some ''Failed to encode diagram source'', statusCode = None\<rparr>, w)"
    if enc: "encodeDiagramSource deflate (source opts) = Inl err" for err
  proof -
    from enc have "err = newError ''Failed to encode diagram source''"
      by (auto simp: encodeDiagramSource_def Let_def split: option.splits)
    with enc show ?thesis
      by (simp add: sendGetRequest_def caught_def newError_def)
  qed
  show ?thesis
    using post get fail by (simp split: sum.splits)
qed

theorem retry_exhausted_503_witness:
  "ex_varying_503 [] (postRequestParams ex_request) = Inr (ex_response 503 ''busy 0'')
   \<and> status (ex_response 503 ''busy 0'') = 503
   \<and> retryCount ex_request = Some 3
   \<and> encodeDiagramSource ex_deflate (source ex_request) = Inr ''eNpz1LVzAgACTQDv''
   \<and> ex_varying_503 (calls ex_world @ [postRequestParams ex_request, postRequestParams ex_request])
        (postRequestParams ex_request) = Inr (ex_response 503 ''busy 2'')
   \<and> fst (sendPostRequest ex_varying_503 ex_request ex_world)
        = Inr \<lparr>success = False, data = None, error = Some ''Server error: 503 busy 2'',
               statusCode = None\<rparr>
   \<and> calls (snd (sendPostRequest ex_varying_503 ex_request ex_world))
        = replicate 3 (postRequestParams ex_request)
   \<and> fst (sendGetRequest ex_deflate ex_varying_503 ex_request ex_world)
        = Inr \<lparr>success = False, data = None, error = Some ''Server error: 503 busy 2'',
               statusCode = None\<rparr>
   \<and> calls (snd (sendGetRequest ex_deflate ex_varying_503 ex_request ex_world))
        = replicate 3 (getRequestParams ex_request ''eNpz1LVzAgACTQDv'')
   \<and> sendGetRequest ex_deflate_fails ex_varying_503 ex_request ex_world
        = (Inr \<lparr>success = False, data = None, error = Some ''Failed to encode diagram source'',
                statusCode = None\<rparr>, ex_world)"
proof -
  let ?p = "postRequestParams ex_request"
  let ?g = "getRequestParams ex_request ''eNpz1LVzAgACTQDv''"
  have h1: "\<And>h q. \<exists>resp. ex_varying_503 h q = Inr resp \<and> status resp = 503"
    by (simp add: ex_varying_503_def ex_response_def)
  have h3: "retryCount ex_request = Some 3"
    by (simp add: ex_request_def)
  have h4: "encodeDiagramSource ex_deflate (source ex_request) = Inr ''eNpz1LVzAgACTQDv''"
    by code_simp
  have h5: "encodeDiagramSource ex_deflate_fails (source ex_request)
              = Inl (newError ''Failed to encode diagram source'')"
    by code_simp
  have b0: "ex_varying_503 [] ?p = Inr (ex_response 503 ''busy 0'')"
    by code_simp
  have s0: "status (ex_response 503 ''busy 0'') = 503"
    by (simp add: ex_response_def)
  have bp: "ex_varying_503 (calls ex_world @ [?p, ?p]) ?p = Inr (ex_response 503 ''busy 2'')"
    by code_simp
  have bg: "ex_varying_503 (calls ex_world @ [?g, ?g]) ?g = Inr (ex_response 503 ''busy 2'')"
    by code_simp
  note t = retry_exhausted_503 [where tr = ex_varying_503 and opts = ex_request and w = ex_world
      and deflate = ex_deflate, OF h1 h3]
  note u = retry_exhausted_503 [where tr = ex_varying_503 and opts = ex_request and w = ex_world
      and deflate = ex_deflate_fails, OF h1 h3]
  from t [THEN conjunct1] obtain lp where
    lp: "ex_varying_503 (calls ex_world @ [?p, ?p]) ?p = Inr lp"
    and sp: "sendPostRequest ex_varying_503 ex_request ex_world =
             (Inr \<lparr>success = False, data = None, error = Some (''Server error: 503 '' @ text_r lp),
                   statusCode = None\<rparr>,
              ex_world\<lparr>calls := calls ex_world @ replicate 3 ?p,
                delays := delays ex_world @ [orElse (retryDelay ex_request) 1000,
                                             orElse (retryDelay ex_request) 1000 * 2,
                                             orElse (retryDelay ex_request) 1000 * 4]\<rparr>)"
    by blast
  from lp bp have "lp = ex_response 503 ''busy 2''" by simp
  then have "text_r lp = ''busy 2''" by (simp add: ex_response_def)
  with sp
  have p: "fst (sendPostRequest ex_varying_503 ex_request ex_world)
             = Inr \<lparr>success = False, data = None, error = Some ''Server error: 503 busy 2'',
                    statusCode = None\<rparr>"
    and pc: "calls (snd (sendPostRequest ex_varying_503 ex_request ex_world)) = replicate 3 ?p"
    by (simp_all add: ex_world_def)
  from t [THEN conjunct2] h4 obtain lg where
    lg: "ex_varying_503 (calls ex_world @ [?g, ?g]) ?g = Inr lg"
    and sg: "sendGetRequest ex_deflate ex_varying_503 ex_request ex_world =
             (Inr \<lparr>success = False, data = None, error = Some (''Server error: 503 '' @ text_r lg),
                   statusCode = None\<rparr>,
              ex_world\<lparr>calls := calls ex_world @ replicate 3 ?g,
                delays := delays ex_world @ [orElse (retryDelay ex_request) 1000,
                                             orElse (retryDelay ex_request) 1000 * 2,
                                             orElse (retryDelay ex_request) 1000 * 4]\<rparr>)"
    by auto
  from lg bg have "lg = ex_response 503 ''busy 2''" by simp
  then have "text_r lg = ''busy 2''" by (simp add: ex_response_def)
  with sg
  have g: "fst (sendGetRequest ex_deflate ex_varying_503 ex_request ex_world)
             = Inr \<lparr>success = False, data = None, error = Some ''Server error: 503 busy 2'',
                    statusCode = None\<rparr>"
    and gc: "calls (snd (sendGetRequest ex_deflate ex_varying_503 ex_request ex_world)) = replicate 3 ?g"
    by (simp_all add: ex_world_def)
  from u [THEN conjunct2] h5
  have f: "sendGetRequest ex_deflate_fails ex_varying_503 ex_request ex_world
        = (Inr \<lparr>success = False, data = None, error = Some ''Failed to encode diagram source'',
                statusCode = None\<rparr>, ex_world)"
    by simp
  from b0 s0 h3 h4 bp p pc g gc f show ?thesis
    by blast
qed

theorem retry_exhausted_status_counterexample:
  "fst (sendGetRequest ex_deflate ex_always_503 ex_request ex_world) = Inr ex_exhausted
   \<and> fst (sendPostRequest ex_always_503 ex_request ex_world) = Inr ex_exhausted
   \<and> \<not> success ex_exhausted
   \<and> statusCode ex_exhausted \<noteq> Some 503"
  by code_simp

theorem senders_total_witness:
  "encodeDiagramSource ex_deflate_fails (source ex_request) = Inl (newError ''Failed to encode diagram source'')
   \<and> sendGetRequest ex_deflate_fails ex_always_503 ex_request ex_world
        = (Inr (caught (newError ''Failed to encode diagram source'')), ex_world)
   \<and> fst (sendRequestWithRetry ex_always_503 (postRequestParams ex_request)
             (orElse (retryCount ex_request) 1) (orElse (retryDelay ex_request) 1000) ex_world)
        = Inl (newError ''Server error: 503 Service Unavailable'')
   \<and> fst (sendPostRequest ex_always_503 ex_request ex_world)
        = Inr (caught (newError ''Server error: 503 Service Unavailable''))"
proof -
  have h1: "encodeDiagramSource ex_deflate_fails (source ex_request)
              = Inl (newError ''Failed to encode diagram source'')"
    by code_simp
  let ?run = "sendRequestWithRetry ex_always_503 (postRequestParams ex_request)
             (orElse (retryCount ex_request) 1) (orElse (retryDelay ex_request) 1000) ex_world"
  have h2: "fst ?run = Inl (newError ''Server error: 503 Service Unavailable'')"
    by code_simp
  then have h2': "?run = (Inl (newError ''Server error: 503 Service Unavailable''), snd ?run)"
    by (simp add: prod_eq_iff)
  from senders_total [of ex_deflate_fails ex_always_503 ex_request ex_world
        "newError ''Failed to encode diagram source''"] h1
  have a: "sendGetRequest ex_deflate_fails ex_always_503 ex_request ex_world
        = (Inr (caught (newError ''Failed to encode diagram source'')), ex_world)"
    by blast
  from senders_total [of ex_deflate ex_always_503 ex_request ex_world
        "newError ''Server error: 503 Service Unavailable''" "snd ?run"] h2'
  have b: "sendPostRequest ex_always_503 ex_request ex_world
        = (Inr (caught (newError ''Server error: 503 Service Unavailable'')), snd ?run)"
    by blast
  from h1 h2 a b show ?thesis by simp
qed

lemma strip_trailing_eq_last: "strip_trailing_eq s \<noteq> [] \<Longrightarrow> last (strip_trailing_eq s) \<noteq> CHR ''=''"
proof -
  assume ne: "strip_trailing_eq s \<noteq> []"
  let ?d = "dropWhile (\<lambda>c. c = CHR ''='') (rev s)"
  from ne have d: "?d \<noteq> []" by (simp add: strip_trailing_eq_def)
  then have "hd ?d \<noteq> CHR ''=''" using hd_dropWhile [of "\<lambda>c. c = CHR ''=''" "rev s"] by simp
  moreover have "last (strip_trailing_eq s) = hd ?d"
    using d by (simp add: strip_trailing_eq_def last_rev)
  ultimately show ?thesis by simp
qed

lemma strip_trailing_eq_set: "set (strip_trailing_eq s) \<subseteq> set s"
  using set_dropWhileD [of _ "\<lambda>c. c = CHR ''=''" "rev s"] by (auto simp: strip_trailing_eq_def)

lemma replace_char_set: "c \<noteq> d \<Longrightarrow> c \<notin> set (replace_char c d s)"
  by (auto simp: replace_char_def)

lemma replace_char_keeps_out: "x \<noteq> d \<Longrightarrow> x \<notin> set s \<Longrightarrow> x \<notin> set (replace_char c d s)"
  by (auto simp: replace_char_def)

lemma endsWith_single: "endsWith s [c] = (s \<noteq> [] \<and> last s = c)"
  by (cases s rule: rev_cases) (simp_all add: endsWith_def)

text \<open>
  C4. Whatever \<open>deflate\<close> returns, a token produced by \<^verbatim>\<open>encodeDiagramSource\<close> contains
  no \<^verbatim>\<open>+\<close> and no \<^verbatim>\<open>/\<close> and does not end with \<^verbatim>\<open>=\<close>.
\<close>

theorem encode_url_safe:
  assumes "encodeDiagramSource deflate src = Inr tok"
  shows "CHR ''+'' \<notin> set tok \<and> CHR ''/'' \<notin> set tok \<and> \<not> endsWith tok ''=''"
proof -
  from assms obtain bytes where
    tok: "tok = strip_trailing_eq (replace_char CHR ''/'' CHR ''_''
                  (replace_char CHR ''+'' CHR ''-'' (base64 bytes)))"
    by (auto simp: encodeDiagramSource_def Let_def split: option.splits)
  let ?a = "replace_char CHR ''+'' CHR ''-'' (base64 bytes)"
  let ?b = "replace_char CHR ''/'' CHR ''_'' ?a"
  have "CHR ''+'' \<notin> set ?a" by (rule replace_char_set) simp
  then have "CHR ''+'' \<notin> set ?b" by (simp add: replace_char_keeps_out)
  then have plus: "CHR ''+'' \<notin> set tok" using strip_trailing_eq_set [of ?b] tok by blast
  have "CHR ''/'' \<notin> set ?b" by (rule replace_char_set) simp
  then have slash: "CHR ''/'' \<notin> set tok" using strip_trailing_eq_set [of ?b] tok by blast
  have "tok \<noteq> [] \<Longrightarrow> last tok \<noteq> CHR ''=''"
    unfolding tok by (rule strip_trailing_eq_last)
  then have "\<not> endsWith tok ''=''"
    by (auto simp: endsWith_single)
  with plus slash show ?thesis by simp
qed

theorem encode_url_safe_witness:
  "encodeDiagramSource ex_deflate '' fgyy&GT;  '' = Inr ''eNpLS6-stAMABjoB_g''
   \<and> base64 [120, 218, 75, 75, 175, 172, 180, 3, 0, 6, 58, 1, 254] = ''eNpLS6+stAMABjoB/g==''
   \<and> CHR ''+'' \<notin> set ''eNpLS6-stAMABjoB_g'' \<and> CHR ''/'' \<notin> set ''eNpLS6-stAMABjoB_g''
   \<and> \<not> endsWith ''eNpLS6-stAMABjoB_g'' ''=''"
proof -
  have h: "encodeDiagramSource ex_deflate '' fgyy&GT;  '' = Inr ''eNpLS6-stAMABjoB_g''"
    by code_simp
  have b: "base64 [120, 218, 75, 75, 175, 172, 180, 3, 0, 6, 58, 1, 254] = ''eNpLS6+stAMABjoB/g==''"
    by code_simp
  from encode_url_safe [OF h] h b show ?thesis by simp
qed

section \<open>Properties of the detector\<close>






text \<open>
  The options come in the order the object lists them: a key that is an array index stands
  before the other keys.
\<close>

lemma option_order_example:
  "parseLanguageOptions ''puml{b:1, 2:x, a:3, 1:y}''
     = (''puml'', [(''1'', ''y''), (''2'', ''x''), (''b'', ''1''), (''a'', ''3'')])"
  by code_simp

lemma index_bounds:
  "isArrayIndex ''4294967294'' \<and> \<not> isArrayIndex ''4294967295'' \<and> isArrayIndex ''0''
   \<and> \<not> isArrayIndex ''01'' \<and> \<not> isArrayIndex ''1a'' \<and> \<not> isArrayIndex []"
  by code_simp




section \<open>Properties of the renderer\<close>

lemma sendGetRequest_returns:
  "\<exists>r w'. sendGetRequest deflate tr opts w = (Inr r, w') \<and> (success r \<or> truthy (error r))"
  unfolding sendGetRequest_cases
  using caught_failure processResponse_variant by (auto split: sum.splits)

lemma sendPostRequest_returns:
  "\<exists>r w'. sendPostRequest tr opts w = (Inr r, w') \<and> (success r \<or> truthy (error r))"
  unfolding sendPostRequest_cases
  using caught_failure processResponse_variant by (auto split: sum.splits)

lemma sendRequestWithRetry_calls:
  assumes "sendRequestWithRetry tr q m d w = (res, w')"
  shows "\<exists>n. calls w' = calls w @ replicate n q \<and> int n \<le> max 0 m"
  using retry_calls [of tr q m d 0 None w res w'] assms
  by (simp add: sendRequestWithRetry_def)

lemma sendGetRequest_calls:
  assumes "sendGetRequest deflate tr opts w = (res, w1)"
  shows "\<exists>n q. calls w1 = calls w @ replicate n q \<and> method_p q = ''GET''
           \<and> int n \<le> max 0 (orElse (retryCount opts) 1)"
proof (cases "encodeDiagramSource deflate (source opts)")
  case (Inl err)
  with assms have "w1 = w" by (simp add: sendGetRequest_def)
  then have "calls w1 = calls w @ replicate 0 (getRequestParams opts []) \<and>
      method_p (getRequestParams opts []) = ''GET'' \<and> int 0 \<le> max 0 (orElse (retryCount opts) 1)"
    by (simp add: getRequestParams_def)
  then show ?thesis by blast
next
  case (Inr tok)
  let ?run = "sendRequestWithRetry tr (getRequestParams opts tok)
                (orElse (retryCount opts) 1) (orElse (retryDelay opts) 1000) w"
  from assms Inr have "w1 = snd ?run"
    by (auto simp: sendGetRequest_def split: sum.splits prod.splits)
  then have "?run = (fst ?run, w1)" by simp
  from sendRequestWithRetry_calls [OF this]
  obtain n where "calls w1 = calls w @ replicate n (getRequestParams opts tok)"
    and "int n \<le> max 0 (orElse (retryCount opts) 1)" by blast
  moreover have "method_p (getRequestParams opts tok) = ''GET''"
    by (simp add: getRequestParams_def)
  ultimately show ?thesis by blast
qed

lemma sendPostRequest_calls:
  assumes "sendPostRequest tr opts w = (res, w1)"
  shows "\<exists>n. calls w1 = calls w @ replicate n (postRequestParams opts)
           \<and> int n \<le> max 0 (orElse (retryCount opts) 1)"
proof -
  let ?run = "sendRequestWithRetry tr (postRequestParams opts)
                (orElse (retryCount opts) 1) (orElse (retryDelay opts) 1000) w"
  from assms have "w1 = snd ?run"
    by (auto simp: sendPostRequest_def split: sum.splits prod.splits)
  then have "?run = (fst ?run, w1)" by simp
  from sendRequestWithRetry_calls [OF this] show ?thesis .
qed

lemma request_after_failed_get:
  assumes "sendGetRequest deflate tr ro w = (Inr g, w1)" and "\<not> success g"
  shows "renderDiagram_request deflate tr ro w =
           (if statusCode g \<noteq> Some 400 then sendPostRequest tr ro w1 else (Inr g, w1))"
proof -
  obtain p w2 where p: "sendPostRequest tr ro w1 = (Inr p, w2)"
    using sendPostRequest_returns [of tr ro w1] by blast
  show ?thesis
    using assms by (simp add: renderDiagram_request_def p)
qed

text \<open>
  C3. After a GET that failed, \<^verbatim>\<open>renderDiagram\<close> runs \<^verbatim>\<open>sendPostRequest\<close> once, from the
  world the GET left, when the status code of the GET response is not 400 (or is absent):
  what follows the GET is one sequence of at most \<^verbatim>\<open>retryCount || 1\<close> POST requests. When the
  status code is 400 the GET response is the result: every request made is a GET, and the
  error thrown carries the message of the GET response after the prefix
  \<^verbatim>\<open>Failed to render diagram: \<close> that every failure of \<^verbatim>\<open>renderDiagram\<close> gets.
\<close>

theorem get_post_fallback:
  assumes "sendGetRequest deflate tr (requestOptionsOf src dtype options) w = (Inr g, w1)"
    and "\<not> success g"
  shows "(statusCode g \<noteq> Some 400 \<longrightarrow>
            renderDiagram_request deflate tr (requestOptionsOf src dtype options) w
              = sendPostRequest tr (requestOptionsOf src dtype options) w1
            \<and> (\<exists>n. calls (snd (renderDiagram_request deflate tr (requestOptionsOf src dtype options) w))
                      = calls w1 @ replicate n (postRequestParams (requestOptionsOf src dtype options))
                    \<and> int n \<le> max 0 (orElse (retryCount_o options) 1)))
       \<and> (statusCode g = Some 400 \<longrightarrow>
            renderDiagram_request deflate tr (requestOptionsOf src dtype options) w = (Inr g, w1)
            \<and> list_all (\<lambda>q. method_p q = ''GET'') (drop (length (calls w)) (calls w1))
            \<and> (\<exists>e. error g = Some e \<and> e \<noteq> []
                    \<and> renderDiagram_fetch deflate tr src dtype options nowSet r w
                        = (Inl (newError (''Failed to render diagram: '' @ e)), r, w1)))"
proof -
  let ?ro = "requestOptionsOf src dtype options"
  note req = request_after_failed_get [OF assms]
  have post: "\<exists>n. calls (snd (sendPostRequest tr ?ro w1)) = calls w1 @ replicate n (postRequestParams ?ro)
                 \<and> int n \<le> max 0 (orElse (retryCount_o options) 1)"
    using sendPostRequest_calls [of tr ?ro w1 "fst (sendPostRequest tr ?ro w1)" "snd (sendPostRequest tr ?ro w1)"]
    by (simp add: requestOptionsOf_def)
  obtain n q where "calls w1 = calls w @ replicate n q" and "method_p q = ''GET''"
    using sendGetRequest_calls [OF assms(1)] by blast
  then have gets: "list_all (\<lambda>q. method_p q = ''GET'') (drop (length (calls w)) (calls w1))"
    by (simp add: list_all_iff)
  have "success g \<or> truthy (error g)"
    using sendGetRequest_returns [of deflate tr ?ro w] assms(1) by auto
  with assms(2) obtain e where e: "error g = Some e" "e \<noteq> []"
    by (auto simp: truthy_def split: option.splits)
  have thrown: "renderDiagram_fetch deflate tr src dtype options nowSet r w
                  = (Inl (newError (''Failed to render diagram: '' @ e)), r, w1)"
    if "statusCode g = Some 400"
    using that req assms(2) e by (simp add: renderDiagram_fetch_def)
  show ?thesis
    using req post gets e thrown by auto
qed

lemma retry_attempted:
  assumes "int a < m" and "sendRequestWithRetry_from tr q m d a le w = (res, w')"
  shows "length (calls w) < length (calls w')"
proof -
  let ?w1 = "w\<lparr>calls := calls w @ [q]\<rparr>"
  let ?w2 = "delay (d * 2 ^ a) ?w1"
  from assms
  have "w' = ?w1 \<or> (\<exists>le'. sendRequestWithRetry_from tr q m d (Suc a) le' ?w2 = (res, w'))"
    by (subst (asm) sendRequestWithRetry_from.simps)
       (auto simp: requestUrl_def split: sum.splits if_splits)
  then show ?thesis
  proof
    assume "w' = ?w1"
    then show ?thesis by simp
  next
    assume "\<exists>le'. sendRequestWithRetry_from tr q m d (Suc a) le' ?w2 = (res, w')"
    then obtain le' where "sendRequestWithRetry_from tr q m d (Suc a) le' ?w2 = (res, w')" ..
    from retry_calls [OF this] obtain n where "calls w' = calls ?w2 @ replicate n q" by blast
    then show ?thesis by (simp add: delay_def)
  qed
qed

lemma sendPostRequest_attempts:
  "\<exists>n. calls (snd (sendPostRequest tr opts w)) = calls w @ replicate n (postRequestParams opts)
        \<and> int n \<le> max 0 (orElse (retryCount opts) 1)
        \<and> (0 < orElse (retryCount opts) 1 \<longrightarrow> 0 < n)"
proof -
  let ?run = "sendRequestWithRetry tr (postRequestParams opts)
                (orElse (retryCount opts) 1) (orElse (retryDelay opts) 1000) w"
  have w1: "snd (sendPostRequest tr opts w) = snd ?run"
    by (auto simp: sendPostRequest_def split: sum.splits prod.splits)
  have run: "?run = (fst ?run, snd ?run)" by simp
  from sendRequestWithRetry_calls [OF run]
  obtain n where n: "calls (snd ?run) = calls w @ replicate n (postRequestParams opts)"
    "int n \<le> max 0 (orElse (retryCount opts) 1)" by blast
  have "0 < n" if "0 < orElse (retryCount opts) 1"
  proof -
    from that have "int 0 < orElse (retryCount opts) 1" by simp
    from retry_attempted [OF this run [unfolded sendRequestWithRetry_def]]
    have "length (calls w) < length (calls (snd ?run))"
      by (simp add: sendRequestWithRetry_def)
    with n(1) show ?thesis by simp
  qed
  with n w1 show ?thesis by auto
qed

text \<open>
  C6, as the code has it. When the encoder fails, \<^verbatim>\<open>sendGetRequest\<close> makes no network call
  (the world is unchanged: no request with a partial token, no GET retry) and returns the
  failure whose message is \<^verbatim>\<open>Failed to encode diagram source\<close>, without a status code. The
  renderer treats it as any GET failure other than a 400: it goes on to
  \<^verbatim>\<open>sendPostRequest\<close>. Every request made from then on is a POST to the type and format
  of the render whose body is the raw source; there are at most \<^verbatim>\<open>retryCount || 1\<close> of
  them, and at least one when that number is positive.
\<close>

theorem encoding_failure_falls_back:
  assumes "encodeDiagramSource deflate (source ro) = Inl err"
  shows "err = newError ''Failed to encode diagram source''
       \<and> sendGetRequest deflate tr ro w =
           (Inr \<lparr>success = False, data = None, error = Some ''Failed to encode diagram source'',
                 statusCode = None\<rparr>, w)
       \<and> renderDiagram_request deflate tr ro w = sendPostRequest tr ro w
       \<and> (\<exists>n. calls (snd (renderDiagram_request deflate tr ro w)) =
                 calls w @ replicate n
                   \<lparr>url = withSlash (serverUrl ro) @ diagramType ro @ ''/'' @ outputFormat ro,
                    method_p = ''POST'',
                    headers = spread [(''Content-Type'', ''text/plain''),
                                      (''Accept'', ''image/svg+xml, image/png'')] (customHeaders ro),
                    body = Some (source ro)\<rparr>
               \<and> int n \<le> max 0 (orElse (retryCount ro) 1)
               \<and> (0 < orElse (retryCount ro) 1 \<longrightarrow> 0 < n))"
proof -
  have e: "err = newError ''Failed to encode diagram source''"
    using assms by (auto simp: encodeDiagramSource_def Let_def split: option.splits)
  have g: "sendGetRequest deflate tr ro w = (Inr (caught err), w)"
    using assms by (simp add: sendGetRequest_def)
  have c: "caught err = \<lparr>success = False, data = None, error = Some ''Failed to encode diagram source'',
                         statusCode = None\<rparr>"
    by (simp add: e caught_def newError_def)
  have "\<not> success (caught err)" by (simp add: caught_def)
  from request_after_failed_get [OF g this]
  have r: "renderDiagram_request deflate tr ro w = sendPostRequest tr ro w"
    by (simp add: caught_def)
  from sendPostRequest_attempts [of tr ro w]
  have "\<exists>n. calls (snd (renderDiagram_request deflate tr ro w)) =
                 calls w @ replicate n
                   \<lparr>url = withSlash (serverUrl ro) @ diagramType ro @ ''/'' @ outputFormat ro,
                    method_p = ''POST'',
                    headers = spread [(''Content-Type'', ''text/plain''),
                                      (''Accept'', ''image/svg+xml, image/png'')] (customHeaders ro),
                    body = Some (source ro)\<rparr>
               \<and> int n \<le> max 0 (orElse (retryCount ro) 1)
               \<and> (0 < orElse (retryCount ro) 1 \<longrightarrow> 0 < n)"
    unfolding r postRequestParams_def .
  with e g c r show ?thesis by simp
qed

lemma renderDiagram_miss:
  "\<not> truthy (fst (cache_lookup options r nowGet src dtype))
     \<Longrightarrow> renderDiagram deflate tr src dtype options nowGet nowSet r w
           = renderDiagram_fetch deflate tr src dtype options nowSet
               (r\<lparr>cache_r := snd (cache_lookup options r nowGet src dtype)\<rparr>) w"
  by (cases "cache_lookup options r nowGet src dtype") (simp add: renderDiagram_def)

lemma renderDiagram_hit:
  "fst (cache_lookup options r nowGet src dtype) = Some content \<Longrightarrow> content \<noteq> []
     \<Longrightarrow> renderDiagram deflate tr src dtype options nowGet nowSet r w
           = (Inr content, r\<lparr>cache_r := snd (cache_lookup options r nowGet src dtype)\<rparr>, w)"
  by (cases "cache_lookup options r nowGet src dtype") (simp add: renderDiagram_def truthy_def)

text \<open>
  C10. \<^verbatim>\<open>renderDiagram\<close> never returns the empty string. A successful response whose data is
  the empty string makes it throw, with nothing stored in the cache; and when the entry
  cached under the key has empty content, the render goes on to the network as on a miss.
\<close>

theorem renderDiagram_never_empty:
  "fst (renderDiagram deflate tr src dtype options nowGet nowSet r w) \<noteq> Inr []
   \<and> (renderDiagram_request deflate tr (requestOptionsOf src dtype options) w = (Inr response, w1)
        \<and> success response \<and> data response = Some []
       \<longrightarrow> (\<exists>err. renderDiagram_fetch deflate tr src dtype options nowSet r w = (Inl err, r, w1)))
   \<and> (useCache options \<noteq> Some False
        \<and> map_of (cache (cache_r r)) (generateKey src dtype (outputFormat_o options) None) = Some entry
        \<and> renderedContent entry = []
       \<longrightarrow> renderDiagram deflate tr src dtype options nowGet nowSet r w
            = renderDiagram_fetch deflate tr src dtype options nowSet
                (r\<lparr>cache_r := snd (cache_lookup options r nowGet src dtype)\<rparr>) w)"
proof -
  have fetch: "fst (renderDiagram_fetch deflate tr src dtype options nowSet r' w) \<noteq> Inr []" for r'
    by (auto simp: renderDiagram_fetch_def truthy_def split: prod.splits sum.splits option.splits if_splits)
  have a: "fst (renderDiagram deflate tr src dtype options nowGet nowSet r w) \<noteq> Inr []"
  proof (cases "truthy (fst (cache_lookup options r nowGet src dtype))")
    case True
    then obtain content where "fst (cache_lookup options r nowGet src dtype) = Some content"
      and "content \<noteq> []"
      by (auto simp: truthy_def split: option.splits)
    then show ?thesis by (simp add: renderDiagram_hit)
  next
    case False
    then show ?thesis using fetch by (simp add: renderDiagram_miss)
  qed
  have b: "\<exists>err. renderDiagram_fetch deflate tr src dtype options nowSet r w = (Inl err, r, w1)"
    if "renderDiagram_request deflate tr (requestOptionsOf src dtype options) w = (Inr response, w1)
        \<and> success response \<and> data response = Some []"
    using that by (simp add: renderDiagram_fetch_def truthy_def)
  have c: "renderDiagram deflate tr src dtype options nowGet nowSet r w
            = renderDiagram_fetch deflate tr src dtype options nowSet
                (r\<lparr>cache_r := snd (cache_lookup options r nowGet src dtype)\<rparr>) w"
    if "useCache options \<noteq> Some False
        \<and> map_of (cache (cache_r r)) (generateKey src dtype (outputFormat_o options) None) = Some entry
        \<and> renderedContent entry = []"
  proof -
    from that have "\<not> truthy (fst (cache_lookup options r nowGet src dtype))"
      by (simp add: cache_lookup_def get_cache_def Let_def truthy_def)
    then show ?thesis by (rule renderDiagram_miss)
  qed
  from a b c show ?thesis by blast
qed

theorem encoding_failure_counterexample:
  "encodeDiagramSource ex_deflate_fails ''A->B'' = Inl (newError ''Failed to encode diagram source'')
   \<and> fst (renderDiagram ex_deflate_fails (ex_transport 200 ''<svg/>'' 200 ''<svg/>'')
            ''A->B'' ''plantuml'' ex_options 0 5 ex_renderer ex_world) = Inr ''<svg/>''
   \<and> map method_p (calls (snd (snd (renderDiagram ex_deflate_fails (ex_transport 200 ''<svg/>'' 200 ''<svg/>'')
            ''A->B'' ''plantuml'' ex_options 0 5 ex_renderer ex_world)))) = [''POST'']"
  by code_simp


theorem get_post_fallback_witness:
  "fst (sendGetRequest ex_deflate (ex_transport 404 ''not found'' 200 ''<svg/>'') ex_ro ex_world)
      = Inr (ex_failed 404 ''not found'')
   \<and> \<not> success (ex_failed 404 ''not found'') \<and> statusCode (ex_failed 404 ''not found'') \<noteq> Some 400
   \<and> renderDiagram_request ex_deflate (ex_transport 404 ''not found'' 200 ''<svg/>'') ex_ro ex_world
      = sendPostRequest (ex_transport 404 ''not found'' 200 ''<svg/>'') ex_ro
          (snd (sendGetRequest ex_deflate (ex_transport 404 ''not found'' 200 ''<svg/>'') ex_ro ex_world))
   \<and> map method_p (calls (snd (renderDiagram_request ex_deflate
          (ex_transport 404 ''not found'' 200 ''<svg/>'') ex_ro ex_world))) = [''GET'', ''POST'']
   \<and> fst (sendGetRequest ex_deflate (ex_transport 400 ''bad request'' 200 ''<svg/>'') ex_ro ex_world)
      = Inr (ex_failed 400 ''bad request'')
   \<and> \<not> success (ex_failed 400 ''bad request'') \<and> statusCode (ex_failed 400 ''bad request'') = Some 400
   \<and> fst (renderDiagram_request ex_deflate (ex_transport 400 ''bad request'' 200 ''<svg/>'') ex_ro ex_world)
      = Inr (ex_failed 400 ''bad request'')
   \<and> map method_p (calls (snd (renderDiagram_request ex_deflate
          (ex_transport 400 ''bad request'' 200 ''<svg/>'') ex_ro ex_world))) = [''GET'']
   \<and> fst (renderDiagram_fetch ex_deflate (ex_transport 400 ''bad request'' 200 ''<svg/>'')
            ''A->B'' ''plantuml'' ex_options 5 ex_renderer ex_world)
      = Inl (newError ''Failed to render diagram: bad request'')"
proof -
  let ?t4 = "ex_transport 404 ''not found'' 200 ''<svg/>''"
  let ?t0 = "ex_transport 400 ''bad request'' 200 ''<svg/>''"
  have g4: "fst (sendGetRequest ex_deflate ?t4 ex_ro ex_world) = Inr (ex_failed 404 ''not found'')"
    by code_simp
  have g0: "fst (sendGetRequest ex_deflate ?t0 ex_ro ex_world) = Inr (ex_failed 400 ''bad request'')"
    by code_simp
  have f4: "\<not> success (ex_failed 404 ''not found'')" "statusCode (ex_failed 404 ''not found'') \<noteq> Some 400"
    by (simp_all add: ex_failed_def)
  have f0: "\<not> success (ex_failed 400 ''bad request'')" "statusCode (ex_failed 400 ''bad request'') = Some 400"
    "error (ex_failed 400 ''bad request'') = Some ''bad request''"
    by (simp_all add: ex_failed_def)
  have h4: "sendGetRequest ex_deflate ?t4 (requestOptionsOf ''A->B'' ''plantuml'' ex_options) ex_world
              = (Inr (ex_failed 404 ''not found''), snd (sendGetRequest ex_deflate ?t4 ex_ro ex_world))"
    using g4 by (simp add: prod_eq_iff ex_ro_def)
  have h0: "sendGetRequest ex_deflate ?t0 (requestOptionsOf ''A->B'' ''plantuml'' ex_options) ex_world
              = (Inr (ex_failed 400 ''bad request''), snd (sendGetRequest ex_deflate ?t0 ex_ro ex_world))"
    using g0 by (simp add: prod_eq_iff ex_ro_def)
  from get_post_fallback [OF h4 f4(1)] f4(2)
  have a: "renderDiagram_request ex_deflate ?t4 ex_ro ex_world
             = sendPostRequest ?t4 ex_ro (snd (sendGetRequest ex_deflate ?t4 ex_ro ex_world))"
    unfolding ex_ro_def by blast
  from get_post_fallback [OF h0 f0(1), of 5 ex_renderer] f0(2,3)
  have b: "fst (renderDiagram_request ex_deflate ?t0 ex_ro ex_world) = Inr (ex_failed 400 ''bad request'')"
    and c: "fst (renderDiagram_fetch ex_deflate ?t0 ''A->B'' ''plantuml'' ex_options 5 ex_renderer ex_world)
              = Inl (newError ''Failed to render diagram: bad request'')"
    unfolding ex_ro_def by auto
  have m4: "map method_p (calls (snd (renderDiagram_request ex_deflate ?t4 ex_ro ex_world))) = [''GET'', ''POST'']"
    by code_simp
  have m0: "map method_p (calls (snd (renderDiagram_request ex_deflate ?t0 ex_ro ex_world))) = [''GET'']"
    by code_simp
  from g4 g0 f4 f0 a b c m4 m0 show ?thesis by blast
qed

theorem encoding_failure_falls_back_witness:
  "encodeDiagramSource ex_deflate_fails (source ex_ro) = Inl (newError ''Failed to encode diagram source'')
   \<and> sendGetRequest ex_deflate_fails (ex_transport 200 ''<svg/>'' 200 ''<svg/>'') ex_ro ex_world
       = (Inr \<lparr>success = False, data = None, error = Some ''Failed to encode diagram source'',
               statusCode = None\<rparr>, ex_world)
   \<and> renderDiagram_request ex_deflate_fails (ex_transport 200 ''<svg/>'' 200 ''<svg/>'') ex_ro ex_world
       = sendPostRequest (ex_transport 200 ''<svg/>'' 200 ''<svg/>'') ex_ro ex_world
   \<and> 0 < orElse (retryCount ex_ro) 1
   \<and> calls (snd (renderDiagram_request ex_deflate_fails
         (ex_transport 200 ''<svg/>'' 200 ''<svg/>'') ex_ro ex_world))
       = [\<lparr>url = ''https://kroki.io/plantuml/svg'', method_p = ''POST'',
           headers = [(''Content-Type'', ''text/plain''), (''Accept'', ''image/svg+xml, image/png'')],
           body = Some ''A->B''\<rparr>]"
proof -
  let ?t = "ex_transport 200 ''<svg/>'' 200 ''<svg/>''"
  let ?q = "\<lparr>url = withSlash (serverUrl ex_ro) @ diagramType ex_ro @ ''/'' @ outputFormat ex_ro,
             method_p = ''POST'',
             headers = spread [(''Content-Type'', ''text/plain''),
                               (''Accept'', ''image/svg+xml, image/png'')] (customHeaders ex_ro),
             body = Some (source ex_ro)\<rparr>"
  have h: "encodeDiagramSource ex_deflate_fails (source ex_ro)
             = Inl (newError ''Failed to encode diagram source'')"
    by code_simp
  have pos: "0 < orElse (retryCount ex_ro) 1" by code_simp
  have len: "length (calls (snd (renderDiagram_request ex_deflate_fails ?t ex_ro ex_world))) = 1"
    by code_simp
  have q: "?q = \<lparr>url = ''https://kroki.io/plantuml/svg'', method_p = ''POST'',
           headers = [(''Content-Type'', ''text/plain''), (''Accept'', ''image/svg+xml, image/png'')],
           body = Some ''A->B''\<rparr>"
    by code_simp
  note t = encoding_failure_falls_back [OF h, of ?t ex_world]
  from t obtain n where
    n: "calls (snd (renderDiagram_request ex_deflate_fails ?t ex_ro ex_world))
          = calls ex_world @ replicate n ?q"
    by blast
  with len have "n = 1" by (simp add: ex_world_def)
  with n have "calls (snd (renderDiagram_request ex_deflate_fails ?t ex_ro ex_world)) = [?q]"
    by (simp add: ex_world_def)
  then have c: "calls (snd (renderDiagram_request ex_deflate_fails ?t ex_ro ex_world))
       = [\<lparr>url = ''https://kroki.io/plantuml/svg'', method_p = ''POST'',
           headers = [(''Content-Type'', ''text/plain''), (''Accept'', ''image/svg+xml, image/png'')],
           body = Some ''A->B''\<rparr>]"
    unfolding q .
  from t h pos c show ?thesis by blast
qed

theorem renderDiagram_never_empty_witness:
  "fst (renderDiagram ex_deflate (ex_transport 200 [] 200 ''<svg/>'') ''A->B'' ''plantuml'' ex_options
          1 5 ex_renderer ex_world) \<noteq> Inr []
   \<and> fst (renderDiagram_request ex_deflate (ex_transport 200 [] 200 ''<svg/>'') ex_ro ex_world)
       = Inr \<lparr>success = True, data = Some [], error = None, statusCode = Some 200\<rparr>
   \<and> (\<exists>err. renderDiagram_fetch ex_deflate (ex_transport 200 [] 200 ''<svg/>'') ''A->B'' ''plantuml''
               ex_options 5 ex_renderer ex_world
             = (Inl err, ex_renderer,
                snd (renderDiagram_request ex_deflate (ex_transport 200 [] 200 ''<svg/>'') ex_ro ex_world)))
   \<and> useCache ex_options \<noteq> Some False
   \<and> map_of (cache (cache_r ex_empty_cached)) (generateKey ''A->B'' ''plantuml'' (outputFormat_o ex_options) None)
       = Some ex_empty_entry
   \<and> renderedContent ex_empty_entry = []
   \<and> renderDiagram ex_deflate (ex_transport 200 ''<svg/>'' 200 ''<svg/>'') ''A->B'' ''plantuml'' ex_options
        1 5 ex_empty_cached ex_world
       = renderDiagram_fetch ex_deflate (ex_transport 200 ''<svg/>'' 200 ''<svg/>'') ''A->B'' ''plantuml''
           ex_options 5 (ex_empty_cached\<lparr>cache_r := snd (cache_lookup ex_options ex_empty_cached 1 ''A->B'' ''plantuml'')\<rparr>)
           ex_world
   \<and> fst (renderDiagram ex_deflate (ex_transport 200 ''<svg/>'' 200 ''<svg/>'') ''A->B'' ''plantuml'' ex_options
        1 5 ex_empty_cached ex_world) = Inr ''<svg/>''
   \<and> map method_p (calls (snd (snd (renderDiagram ex_deflate (ex_transport 200 ''<svg/>'' 200 ''<svg/>'')
        ''A->B'' ''plantuml'' ex_options 1 5 ex_empty_cached ex_world)))) = [''GET'']"
proof -
  let ?te = "ex_transport 200 [] 200 ''<svg/>''"
  let ?ts = "ex_transport 200 ''<svg/>'' 200 ''<svg/>''"
  let ?resp = "\<lparr>success = True, data = Some [], error = None, statusCode = Some 200\<rparr>"
  have q: "fst (renderDiagram_request ex_deflate ?te ex_ro ex_world) = Inr ?resp"
    by code_simp
  then have q': "renderDiagram_request ex_deflate ?te (requestOptionsOf ''A->B'' ''plantuml'' ex_options) ex_world
              = (Inr ?resp, snd (renderDiagram_request ex_deflate ?te ex_ro ex_world))
            \<and> success ?resp \<and> data ?resp = Some []"
    by (simp add: prod_eq_iff ex_ro_def)
  have u: "useCache ex_options \<noteq> Some False" by (simp add: ex_options_def)
  have e: "map_of (cache (cache_r ex_empty_cached))
             (generateKey ''A->B'' ''plantuml'' (outputFormat_o ex_options) None) = Some ex_empty_entry"
    by code_simp
  have n: "renderedContent ex_empty_entry = []" by (simp add: ex_empty_entry_def)
  have v: "fst (renderDiagram ex_deflate ?ts ''A->B'' ''plantuml'' ex_options 1 5 ex_empty_cached ex_world)
             = Inr ''<svg/>''"
    by code_simp
  have m: "map method_p (calls (snd (snd (renderDiagram ex_deflate ?ts ''A->B'' ''plantuml'' ex_options
             1 5 ex_empty_cached ex_world)))) = [''GET'']"
    by code_simp
  note t1 = renderDiagram_never_empty [of ex_deflate ?te "''A->B''" "''plantuml''" ex_options 1 5
      ex_renderer ex_world ?resp "snd (renderDiagram_request ex_deflate ?te ex_ro ex_world)" ex_empty_entry]
  note t2 = renderDiagram_never_empty [of ex_deflate ?ts "''A->B''" "''plantuml''" ex_options 1 5
      ex_empty_cached ex_world ?resp "snd (renderDiagram_request ex_deflate ?te ex_ro ex_world)" ex_empty_entry]
  from t1 have a: "fst (renderDiagram ex_deflate ?te ''A->B'' ''plantuml'' ex_options 1 5 ex_renderer ex_world)
                     \<noteq> Inr []"
    by blast
  from t1 q' have b: "\<exists>err. renderDiagram_fetch ex_deflate ?te ''A->B'' ''plantuml'' ex_options 5 ex_renderer ex_world
             = (Inl err, ex_renderer, snd (renderDiagram_request ex_deflate ?te ex_ro ex_world))"
    by blast
  from t2 u e n have c: "renderDiagram ex_deflate ?ts ''A->B'' ''plantuml'' ex_options 1 5 ex_empty_cached ex_world
       = renderDiagram_fetch ex_deflate ?ts ''A->B'' ''plantuml'' ex_options 5
           (ex_empty_cached\<lparr>cache_r := snd (cache_lookup ex_options ex_empty_cached 1 ''A->B'' ''plantuml'')\<rparr>)
           ex_world"
    by blast
  from a q b u e n c v m show ?thesis by blast
qed

subsection \<open>Rendering twice\<close>

lemma insort_key_snoc:
  "f y \<le> f x \<Longrightarrow> insort_key f y (zs @ [x]) = insort_key f y zs @ [x]"
  by (induction zs) simp_all

lemma sort_key_snoc:
  "\<forall>y\<in>set xs. f y \<le> f x \<Longrightarrow> sort_key f (xs @ [x]) = sort_key f xs @ [x]"
  by (induction xs) (simp_all add: insort_key_snoc)

lemma set_cache_stores:
  assumes absent: "generateKey src dtype fmt file \<notin> fst ` set (cache c)"
    and older: "\<forall>p\<in>set (cache c). timestamp (snd p) \<le> now"
  shows "map_of (cache (set_cache c now src content dtype fmt file)) (generateKey src dtype fmt file)
           = Some \<lparr>source_e = src, renderedContent = content, timestamp = now,
                   diagramType_e = dtype, outputFormat_e = fmt\<rparr>"
proof -
  let ?key = "generateKey src dtype fmt file"
  let ?e = "\<lparr>source_e = src, renderedContent = content, timestamp = now,
             diagramType_e = dtype, outputFormat_e = fmt\<rparr>"
  let ?f = "\<lambda>p :: string \<times> DiagramCacheEntry. timestamp (snd p)"
  let ?c1 = "c\<lparr>cache := assign ?key ?e (cache c)\<rparr>"
  have c1: "cache ?c1 = cache c @ [(?key, ?e)]"
    using absent by (simp add: assign_absent)
  have stored: "map_of (cache ?c1) ?key = Some ?e"
    by (simp add: map_of_assign)
  show ?thesis
  proof (cases "length (cache ?c1) > maxCacheSize ?c1")
    case False
    then show ?thesis using stored by (simp add: set_cache_def Let_def)
  next
    case True
    let ?k = "maxCacheSize c div 5"
    from True c1 have "maxCacheSize c \<le> length (cache c)" by simp
    then have k: "?k \<le> length (sort_key ?f (cache c))" by simp
    have "sort_key ?f (cache ?c1) = sort_key ?f (cache c) @ [(?key, ?e)]"
      unfolding c1 using older by (intro sort_key_snoc) simp
    then have tk: "take ?k (sort_key ?f (cache ?c1)) = take ?k (sort_key ?f (cache c))"
      using k by simp
    have "fst ` set (take ?k (sort_key ?f (cache c))) \<subseteq> fst ` set (cache c)"
      using set_take_subset [of ?k "sort_key ?f (cache c)"] by auto
    with absent have "?key \<notin> fst ` set (take ?k (sort_key ?f (cache ?c1)))"
      unfolding tk by blast
    then have "map_of (cache (pruneCache ?c1)) ?key = map_of (cache ?c1) ?key"
      by (simp add: pruneCache_def Let_def map_of_delete_all)
    with True stored show ?thesis by (simp add: set_cache_def Let_def)
  qed
qed

lemma get_cache_hit:
  "map_of (cache c) (generateKey src dtype fmt file) = Some entry
     \<Longrightarrow> now - timestamp entry \<le> maxCacheAge c
     \<Longrightarrow> get_cache c now src dtype fmt file = (Some (renderedContent entry), c)"
  by (simp add: get_cache_def Let_def)

lemma get_cache_subset: "set (cache (snd (get_cache c now src dtype fmt file))) \<subseteq> set (cache c)"
  by (auto simp: get_cache_def Let_def delete_key_def split: option.splits)

lemma get_cache_Some:
  assumes "get_cache c now src dtype fmt file = (Some content, c1)"
  shows "c1 = c \<and> (\<exists>entry. map_of (cache c) (generateKey src dtype fmt file) = Some entry
                      \<and> renderedContent entry = content)"
  using assms by (auto simp: get_cache_def Let_def split: option.splits if_splits)

lemma get_cache_miss_absent:
  assumes "\<forall>p\<in>set (cache c). renderedContent (snd p) \<noteq> []"
    and "\<not> truthy (fst (get_cache c now src dtype fmt file))"
  shows "generateKey src dtype fmt file \<notin> fst ` set (cache (snd (get_cache c now src dtype fmt file)))"
proof (cases "map_of (cache c) (generateKey src dtype fmt file)")
  case None
  then have "generateKey src dtype fmt file \<notin> fst ` set (cache c)"
    by (simp add: map_of_eq_None_iff)
  with None show ?thesis by (simp add: get_cache_def Let_def)
next
  case (Some entry)
  then have "(generateKey src dtype fmt file, entry) \<in> set (cache c)" by (rule map_of_SomeD)
  with assms(1) have ne: "renderedContent entry \<noteq> []" by auto
  show ?thesis
  proof (cases "now - timestamp entry \<le> maxCacheAge c")
    case True
    with Some ne assms(2) show ?thesis by (simp add: get_cache_def Let_def truthy_def)
  next
    case False
    with Some show ?thesis by (simp add: get_cache_def Let_def delete_key_keys)
  qed
qed

lemma fetch_success:
  assumes "renderDiagram_fetch deflate tr src dtype options nowSet r w = (Inr content, r1, w1)"
  shows "content \<noteq> []
       \<and> r1 = (if useCache options \<noteq> Some False
               then r\<lparr>cache_r := set_cache (cache_r r) nowSet src content dtype (outputFormat_o options) None\<rparr>
               else r)
       \<and> (\<exists>response. renderDiagram_request deflate tr (requestOptionsOf src dtype options) w = (Inr response, w1)
             \<and> success response \<and> data response = Some content)"
  using assms
  by (auto simp: renderDiagram_fetch_def truthy_def split: prod.splits sum.splits option.splits if_splits)


lemma assign_subset: "set (assign k v m) \<subseteq> insert (k, v) (set m)"
  by (induction k v m rule: assign.induct) auto

lemma pruneCache_subset: "set (cache (pruneCache c)) \<subseteq> set (cache c)"
  by (simp add: pruneCache_def Let_def delete_all_subset)

lemma cache_inv_new: "cache_inv (newDiagramCache n a) t"
  by (simp add: cache_inv_def wf_cache_def newDiagramCache_def)

lemma cache_inv_mono: "cache_inv c t \<Longrightarrow> t \<le> t' \<Longrightarrow> cache_inv c t'"
  by (auto simp: cache_inv_def list_all_iff)

lemma cache_inv_get: "cache_inv c t \<Longrightarrow> cache_inv (snd (get_cache c now src dtype fmt path)) t"
  using get_cache_subset [of c now src dtype fmt path] wf_cache_get [of c now src dtype fmt path]
  by (auto simp: cache_inv_def list_all_iff)

lemma cache_inv_set:
  assumes "cache_inv c now" and "content \<noteq> []"
  shows "cache_inv (set_cache c now src content dtype fmt file) now"
proof -
  let ?e = "\<lparr>source_e = src, renderedContent = content, timestamp = now,
             diagramType_e = dtype, outputFormat_e = fmt\<rparr>"
  let ?c1 = "c\<lparr>cache := assign (generateKey src dtype fmt file) ?e (cache c)\<rparr>"
  have "set (cache (set_cache c now src content dtype fmt file)) \<subseteq> set (cache ?c1)"
    using pruneCache_subset [of ?c1] by (simp add: set_cache_def Let_def)
  also have "\<dots> \<subseteq> insert (generateKey src dtype fmt file, ?e) (set (cache c))"
    using assign_subset [of "generateKey src dtype fmt file" ?e "cache c"] by simp
  finally have "\<forall>p\<in>set (cache (set_cache c now src content dtype fmt file)).
                  timestamp (snd p) \<le> now \<and> renderedContent (snd p) \<noteq> []"
    using assms by (auto simp: cache_inv_def list_all_iff)
  moreover have "wf_cache (set_cache c now src content dtype fmt file)"
    using assms(1) by (simp add: cache_inv_def wf_cache_set)
  ultimately show ?thesis by (simp add: cache_inv_def list_all_iff)
qed

text \<open>
  The renderer keeps the invariant: from a new renderer on, every cached content is
  non-empty, and while the clock does not go backwards no timestamp is in the future.
\<close>

lemma renderDiagram_inv:
  assumes "cache_inv (cache_r r) nowSet"
  shows "cache_inv (cache_r (fst (snd (renderDiagram deflate tr src dtype options nowGet nowSet r w)))) nowSet"
proof -
  let ?look = "cache_lookup options r nowGet src dtype"
  have l: "cache_inv (snd ?look) nowSet"
    using assms by (simp add: cache_lookup_def cache_inv_get)
  show ?thesis
  proof (cases "truthy (fst ?look)")
    case True
    then obtain c0 where "fst ?look = Some c0" "c0 \<noteq> []"
      by (auto simp: truthy_def split: option.splits)
    then show ?thesis using l by (simp add: renderDiagram_hit)
  next
    case False
    let ?r0 = "r\<lparr>cache_r := snd ?look\<rparr>"
    let ?res = "renderDiagram_fetch deflate tr src dtype options nowSet ?r0 w"
    have "cache_inv (cache_r (fst (snd ?res))) nowSet"
    proof (cases "fst ?res")
      case (Inl err)
      then have "fst (snd ?res) = ?r0"
        by (auto simp: renderDiagram_fetch_def split: prod.splits sum.splits option.splits if_splits)
      with l show ?thesis by simp
    next
      case (Inr content)
      then have "?res = (Inr content, fst (snd ?res), snd (snd ?res))" by (simp add: prod_eq_iff)
      from fetch_success [OF this] l show ?thesis
        by (auto simp: cache_inv_set)
    qed
    with False show ?thesis by (simp add: renderDiagram_miss)
  qed
qed

lemma retry_success_calls:
  assumes "sendRequestWithRetry_from tr q m d a le w = (Inr resp, w')"
  shows "length (calls w) < length (calls w')"
proof (cases "int a < m")
  case False
  with assms show ?thesis
    by (simp add: sendRequestWithRetry_from.simps split: option.splits)
next
  case True
  let ?w1 = "w\<lparr>calls := calls w @ [q]\<rparr>"
  let ?w2 = "delay (d * 2 ^ a) ?w1"
  from assms True
  have "w' = ?w1 \<or> (\<exists>le'. sendRequestWithRetry_from tr q m d (Suc a) le' ?w2 = (Inr resp, w'))"
    by (subst (asm) sendRequestWithRetry_from.simps)
       (auto simp: requestUrl_def split: sum.splits if_splits)
  then show ?thesis
  proof
    assume "w' = ?w1"
    then show ?thesis by simp
  next
    assume "\<exists>le'. sendRequestWithRetry_from tr q m d (Suc a) le' ?w2 = (Inr resp, w')"
    then obtain le' where "sendRequestWithRetry_from tr q m d (Suc a) le' ?w2 = (Inr resp, w')" ..
    from retry_calls [OF this] obtain n where "calls w' = calls ?w2 @ replicate n q" by blast
    then show ?thesis by (simp add: delay_def)
  qed
qed

lemma sendGetRequest_success_calls:
  assumes "sendGetRequest deflate tr opts w = (Inr g, w1)" and "success g"
  shows "length (calls w) < length (calls w1)"
proof (cases "encodeDiagramSource deflate (source opts)")
  case (Inl err)
  with assms show ?thesis by (auto simp: sendGetRequest_def caught_def)
next
  case (Inr tok)
  with assms obtain resp where
    "sendRequestWithRetry tr (getRequestParams opts tok)
       (orElse (retryCount opts) 1) (orElse (retryDelay opts) 1000) w = (Inr resp, w1)"
    by (auto simp: sendGetRequest_def caught_def split: sum.splits prod.splits)
  then show ?thesis
    unfolding sendRequestWithRetry_def by (rule retry_success_calls)
qed

lemma sendPostRequest_success_calls:
  assumes "sendPostRequest tr opts w = (Inr p, w1)" and "success p"
  shows "length (calls w) < length (calls w1)"
proof -
  from assms obtain resp where
    "sendRequestWithRetry tr (postRequestParams opts)
       (orElse (retryCount opts) 1) (orElse (retryDelay opts) 1000) w = (Inr resp, w1)"
    by (auto simp: sendPostRequest_def caught_def split: sum.splits prod.splits)
  then show ?thesis
    unfolding sendRequestWithRetry_def by (rule retry_success_calls)
qed

lemma request_success_calls:
  assumes "renderDiagram_request deflate tr ro w = (Inr response, w1)" and "success response"
  shows "length (calls w) < length (calls w1)"
proof -
  obtain g wg where g: "sendGetRequest deflate tr ro w = (Inr g, wg)"
    using sendGetRequest_returns [of deflate tr ro w] by blast
  show ?thesis
  proof (cases "success g")
    case True
    with g assms have "g = response" "wg = w1" by (simp_all add: renderDiagram_request_def)
    with g True show ?thesis using sendGetRequest_success_calls by blast
  next
    case False
    show ?thesis
    proof (cases "statusCode g = Some 400")
      case True
      with g False assms show ?thesis by (simp add: renderDiagram_request_def)
    next
      case no400: False
      from request_after_failed_get [OF g False] no400 assms(1)
      have p: "sendPostRequest tr ro wg = (Inr response, w1)" by simp
      have "length (calls w) \<le> length (calls wg)"
        using sendGetRequest_calls [OF g] by auto
      moreover have "length (calls wg) < length (calls w1)"
        using p assms(2) by (rule sendPostRequest_success_calls)
      ultimately show ?thesis by simp
    qed
  qed
qed

lemma request_calls_bound:
  "length (calls (snd (renderDiagram_request deflate tr ro w)))
     \<le> length (calls w) + 2 * nat (max 0 (orElse (retryCount ro) 1))"
proof -
  obtain g wg where g: "sendGetRequest deflate tr ro w = (Inr g, wg)"
    using sendGetRequest_returns [of deflate tr ro w] by blast
  from sendGetRequest_calls [OF g]
  have gb: "length (calls wg) \<le> length (calls w) + nat (max 0 (orElse (retryCount ro) 1))"
    by auto
  show ?thesis
  proof (cases "\<not> success g \<and> statusCode g \<noteq> Some 400")
    case True
    then have "renderDiagram_request deflate tr ro w = sendPostRequest tr ro wg"
      using request_after_failed_get [OF g] by simp
    moreover from sendPostRequest_attempts [of tr ro wg]
    have "length (calls (snd (sendPostRequest tr ro wg)))
            \<le> length (calls wg) + nat (max 0 (orElse (retryCount ro) 1))"
      by auto
    ultimately show ?thesis using gb by simp
  next
    case False
    then have "renderDiagram_request deflate tr ro w = (Inr g, wg)"
      using g by (auto simp: renderDiagram_request_def)
    then show ?thesis using gb by simp
  qed
qed

text \<open>
  C8, as the code has it. With the cache enabled, after a render that returned content, a
  second render of the same source, type and format, made while the cached entry is within
  the age bound, returns the same content and leaves the world as it was: it makes no
  transport call. All transport calls are made by the first render: at least one when it
  missed the cache, and never more than twice \<^verbatim>\<open>retryCount || 1\<close> (the GET attempts and the
  POST attempts). The clock is taken not to have gone backwards: no entry of the cache is
  newer than the time of the first render's \<^verbatim>\<open>set\<close>.
\<close>

theorem second_render_from_cache:
  assumes inv: "cache_inv (cache_r r) nowSet"
    and use: "useCache options \<noteq> Some False"
    and first: "renderDiagram deflate tr src dtype options nowGet nowSet r w = (Inr content, r1, w1)"
    and age: "within_age (cache_r r1) nowGet2 src dtype (outputFormat_o options)"
  shows "renderDiagram deflate2 tr2 src dtype options nowGet2 nowSet2 r1 w1 = (Inr content, r1, w1)
       \<and> (\<not> truthy (fst (cache_lookup options r nowGet src dtype)) \<longrightarrow> length (calls w) < length (calls w1))
       \<and> length (calls w1) \<le> length (calls w) + 2 * nat (max 0 (orElse (retryCount_o options) 1))"
proof -
  let ?fmt = "outputFormat_o options"
  let ?key = "generateKey src dtype ?fmt None"
  let ?look = "cache_lookup options r nowGet src dtype"
  have look: "?look = get_cache (cache_r r) nowGet src dtype ?fmt None"
    using use by (simp add: cache_lookup_def)
  have facts: "(\<exists>entry. map_of (cache (cache_r r1)) ?key = Some entry \<and> renderedContent entry = content)
      \<and> content \<noteq> []
      \<and> (\<not> truthy (fst ?look) \<longrightarrow> length (calls w) < length (calls w1))
      \<and> length (calls w1) \<le> length (calls w) + 2 * nat (max 0 (orElse (retryCount_o options) 1))"
  proof (cases "truthy (fst ?look)")
    case True
    then obtain c0 where c0: "fst ?look = Some c0" "c0 \<noteq> []"
      by (auto simp: truthy_def split: option.splits)
    from renderDiagram_hit [OF c0] first
    have eq: "content = c0" "r1 = r\<lparr>cache_r := snd ?look\<rparr>" "w1 = w" by simp_all
    from c0(1) have "get_cache (cache_r r) nowGet src dtype ?fmt None = (Some c0, snd ?look)"
      unfolding look by (simp add: prod_eq_iff)
    from get_cache_Some [OF this] eq c0(2) True
    show ?thesis by auto
  next
    case False
    let ?r0 = "r\<lparr>cache_r := snd ?look\<rparr>"
    from renderDiagram_miss [OF False] first
    have "renderDiagram_fetch deflate tr src dtype options nowSet ?r0 w = (Inr content, r1, w1)"
      by simp
    from fetch_success [OF this] use
    have c: "content \<noteq> []"
      and r1: "r1 = ?r0\<lparr>cache_r := set_cache (snd ?look) nowSet src content dtype ?fmt None\<rparr>"
      and req: "\<exists>response. renderDiagram_request deflate tr (requestOptionsOf src dtype options) w
                   = (Inr response, w1) \<and> success response"
      by auto
    from req have "w1 = snd (renderDiagram_request deflate tr (requestOptionsOf src dtype options) w)"
      by auto
    with request_calls_bound [of deflate tr "requestOptionsOf src dtype options" w]
    have bound: "length (calls w1) \<le> length (calls w) + 2 * nat (max 0 (orElse (retryCount_o options) 1))"
      by (simp add: requestOptionsOf_def)
    have all: "\<forall>p\<in>set (cache (cache_r r)). timestamp (snd p) \<le> nowSet \<and> renderedContent (snd p) \<noteq> []"
      using inv by (simp add: cache_inv_def list_all_iff)
    then have "\<forall>p\<in>set (cache (cache_r r)). renderedContent (snd p) \<noteq> []" by blast
    from get_cache_miss_absent [OF this] False
    have absent: "?key \<notin> fst ` set (cache (snd ?look))"
      unfolding look by blast
    have older: "\<forall>p\<in>set (cache (snd ?look)). timestamp (snd p) \<le> nowSet"
      using all get_cache_subset [of "cache_r r" nowGet src dtype ?fmt None]
      unfolding look by blast
    from set_cache_stores [OF absent older, of content] r1
    have "\<exists>entry. map_of (cache (cache_r r1)) ?key = Some entry \<and> renderedContent entry = content"
      by simp
    moreover from req have "length (calls w) < length (calls w1)"
      using request_success_calls by blast
    ultimately show ?thesis using c bound by simp
  qed
  then have stored: "\<exists>entry. map_of (cache (cache_r r1)) ?key = Some entry \<and> renderedContent entry = content"
    and ne: "content \<noteq> []"
    and called: "\<not> truthy (fst ?look) \<longrightarrow> length (calls w) < length (calls w1)"
    and bounded: "length (calls w1) \<le> length (calls w) + 2 * nat (max 0 (orElse (retryCount_o options) 1))"
    by simp_all
  from stored obtain entry where e: "map_of (cache (cache_r r1)) ?key = Some entry"
    "renderedContent entry = content" by blast
  from age e(1) have "nowGet2 - timestamp entry \<le> maxCacheAge (cache_r r1)"
    by (simp add: within_age_def)
  from get_cache_hit [OF e(1) this] e(2) use
  have l2: "cache_lookup options r1 nowGet2 src dtype = (Some content, cache_r r1)"
    by (simp add: cache_lookup_def)
  then have "fst (cache_lookup options r1 nowGet2 src dtype) = Some content" by simp
  from renderDiagram_hit [OF this ne, of deflate2 tr2 nowSet2 w1] l2
  have "renderDiagram deflate2 tr2 src dtype options nowGet2 nowSet2 r1 w1 = (Inr content, r1, w1)"
    by simp
  with called bounded show ?thesis by simp
qed

theorem second_render_from_cache_witness:
  "cache_inv (cache_r ex_renderer) 5 \<and> useCache ex_options \<noteq> Some False
   \<and> fst (ex_first (ex_transport 200 ''<svg/>'' 200 ''<svg/>'')) = Inr ''<svg/>''
   \<and> within_age (cache_r (fst (snd (ex_first (ex_transport 200 ''<svg/>'' 200 ''<svg/>''))))) 10 ''A->B''
        ''plantuml'' (outputFormat_o ex_options)
   \<and> ex_second (ex_transport 200 ''<svg/>'' 200 ''<svg/>'')
       = (Inr ''<svg/>'', snd (ex_first (ex_transport 200 ''<svg/>'' 200 ''<svg/>'')))
   \<and> \<not> truthy (fst (cache_lookup ex_options ex_renderer 1 ''A->B'' ''plantuml''))
   \<and> map method_p (calls (snd (snd (ex_second (ex_transport 200 ''<svg/>'' 200 ''<svg/>''))))) = [''GET'']"
proof -
  let ?t = "ex_transport 200 ''<svg/>'' 200 ''<svg/>''"
  have h1: "cache_inv (cache_r ex_renderer) 5" by code_simp
  have h2: "useCache ex_options \<noteq> Some False" by (simp add: ex_options_def)
  have f: "fst (ex_first ?t) = Inr ''<svg/>''" by code_simp
  then have h3: "renderDiagram ex_deflate ?t ''A->B'' ''plantuml'' ex_options 1 5 ex_renderer ex_world
                   = (Inr ''<svg/>'', fst (snd (ex_first ?t)), snd (snd (ex_first ?t)))"
    by (simp add: ex_first_def prod_eq_iff)
  have h4: "within_age (cache_r (fst (snd (ex_first ?t)))) 10 ''A->B'' ''plantuml'' (outputFormat_o ex_options)"
    by code_simp
  have m: "\<not> truthy (fst (cache_lookup ex_options ex_renderer 1 ''A->B'' ''plantuml''))"
    by code_simp
  from second_render_from_cache [OF h1 h2 h3 h4, of ex_deflate ?t 15]
  have s: "ex_second ?t = (Inr ''<svg/>'', snd (ex_first ?t))"
    by (simp add: ex_second_def)
  have c: "map method_p (calls (snd (snd (ex_first ?t)))) = [''GET'']"
    by code_simp
  from h1 h2 f h4 s m c show ?thesis by simp
qed

theorem idempotence_counterexample:
  "useCache ex_options \<noteq> Some False
   \<and> fst (ex_first (ex_transport 404 ''not found'' 200 ''<svg/>'')) = Inr ''<svg/>''
   \<and> fst (ex_second (ex_transport 404 ''not found'' 200 ''<svg/>'')) = Inr ''<svg/>''
   \<and> map method_p (calls (snd (snd (ex_second (ex_transport 404 ''not found'' 200 ''<svg/>'')))))
       = [''GET'', ''POST'']"
  by code_simp

end
